theory Spec2Isabelle
  imports Complex_Main "HOL-Library.AList" "HOL-Library.Stream"
begin

section \<open>Python values and exceptions\<close>

text \<open>
  The values that flow through \<^verbatim>\<open>twitchdc/api.py\<close>: decoded JSON bodies, query
  parameters and the attributes of a \<^verbatim>\<open>HelixAPI\<close> object. A dictionary is an
  association list in insertion order (keys of a decoded JSON object are distinct).
\<close>

datatype pyval =
    PyNone
  | PyBool bool
  | PyInt int
  | PyStr string
  | PyList "pyval list"
  | PyDict "(string \<times> pyval) list"

text \<open>
  Every exception the module can raise or let through. \<open>PyException\<close> is a plain
  \<^verbatim>\<open>raise Exception(msg)\<close> (the empty message for a bare \<^verbatim>\<open>raise Exception\<close>);
  \<open>TransportError\<close> is an exception of the HTTP library itself (connection failure,
  retries exhausted); \<open>CallbackError\<close> is whatever the caller's refresh callback raises.
\<close>

datatype error =
    ValueError string
  | TypeError string
  | KeyError string
  | AttributeError string
  | PyException string
  | JSONDecodeError
  | TransportError string
  | CallbackError string
  | OverflowError string

type_synonym params = "(string \<times> pyval) list"

text \<open>\<^verbatim>\<open>d[k]\<close> for a string key: only a dictionary can be subscripted by a string.\<close>

fun subscript :: "pyval \<Rightarrow> string \<Rightarrow> error + pyval" where
  "subscript (PyDict kvs) k =
     (case map_of kvs k of None \<Rightarrow> Inl (KeyError k) | Some v \<Rightarrow> Inr v)"
| "subscript v k = Inl (TypeError ''object is not subscriptable by a string'')"

text \<open>
  The elements \<^verbatim>\<open>list.extend(v)\<close> appends and \<^verbatim>\<open>len(v)\<close> counts: the items of a
  list, the characters of a string, the keys of a dictionary; anything else is not
  iterable.
\<close>

fun py_iter :: "pyval \<Rightarrow> error + pyval list" where
  "py_iter (PyList xs) = Inr xs"
| "py_iter (PyStr s) = Inr (map (\<lambda>ch. PyStr [ch]) s)"
| "py_iter (PyDict kvs) = Inr (map (\<lambda>kv. PyStr (fst kv)) kvs)"
| "py_iter v = Inl (TypeError ''object is not iterable'')"

text \<open>\<^verbatim>\<open>v != 0\<close>: a string or \<^verbatim>\<open>None\<close> never equals the integer 0; \<^verbatim>\<open>False\<close> does.\<close>

fun py_ne_zero :: "pyval \<Rightarrow> bool" where
  "py_ne_zero (PyInt n) = (n \<noteq> 0)"
| "py_ne_zero (PyBool b) = b"
| "py_ne_zero v = True"

subsection \<open>\<^verbatim>\<open>int(v)\<close>\<close>

text \<open>
  A string is a list of 8-bit characters, which is what a header value decoded from
  Latin-1 is. Among these, \<^verbatim>\<open>int\<close> strips as whitespace the characters 9 to 13, 28 to
  32, 133 (next line) and 160 (no-break space).
\<close>

definition is_space :: "char \<Rightarrow> bool" where
  "is_space ch =
     (let n = (of_char ch :: nat)
      in (9 \<le> n \<and> n \<le> 13) \<or> (28 \<le> n \<and> n \<le> 32) \<or> n = 133 \<or> n = 160)"

definition is_digit :: "char \<Rightarrow> bool" where
  "is_digit ch = (48 \<le> (of_char ch :: nat) \<and> (of_char ch :: nat) \<le> 57)"

text \<open>
  Decimal digits, a single underscore allowed between two digits. \<open>prev\<close> tells whether
  the previous character was a digit.
\<close>

fun digits :: "bool \<Rightarrow> nat \<Rightarrow> string \<Rightarrow> nat option" where
  "digits prev acc [] = (if prev then Some acc else None)"
| "digits prev acc (ch # cs) =
     (if is_digit ch then digits True (10 * acc + ((of_char ch :: nat) - 48)) cs
      else if ch = CHR ''_'' \<and> prev then digits False acc cs
      else None)"

definition strip :: "string \<Rightarrow> string" where
  "strip s = rev (dropWhile is_space (rev (dropWhile is_space s)))"

definition int_of_str :: "string \<Rightarrow> int option" where
  "int_of_str s =
     (case strip s of
        [] \<Rightarrow> None
      | ch # cs \<Rightarrow>
          if ch = CHR ''-'' then map_option (\<lambda>n. - int n) (digits False 0 cs)
          else if ch = CHR ''+'' then map_option int (digits False 0 cs)
          else map_option int (digits False 0 (ch # cs)))"

fun py_int :: "pyval \<Rightarrow> error + int" where
  "py_int (PyInt n) = Inr n"
| "py_int (PyBool b) = Inr (if b then 1 else 0)"
| "py_int (PyStr s) =
     (case int_of_str s of
        None \<Rightarrow> Inl (ValueError ''invalid literal for int() with base 10'')
      | Some n \<Rightarrow> Inr n)"
| "py_int v = Inl (TypeError ''int() argument must be a string or a number'')"

section \<open>The transport: what \<^verbatim>\<open>requests\<close> does for the client\<close>

text \<open>
  A response as the client reads it: status code, reason, headers (header names as the
  transport's case-insensitive dictionary finds them) and \<^verbatim>\<open>response.json()\<close>, which is
  \<open>None\<close> when the body is not JSON.
\<close>

record http_response =
  status_code :: int
  reason :: string
  resp_headers :: "(string \<times> string) list"
  json :: "pyval option"

text \<open>
  The value of the \<^verbatim>\<open>Authorization\<close> header is the f-string \<^verbatim>\<open>f"Bearer {token}"\<close>; it
  is kept as the token it was formatted from.
\<close>

datatype header_val = Plain string | Bearer pyval

datatype event =
    HttpGet string params "(string \<times> header_val) list"
  | HttpPost string "(string \<times> string) list"
  | Sleep real
  | CallbackCall pyval

text \<open>
  The world outside the client: the replies the data endpoints and the token endpoint
  will give, in order (an exception of the transport is a reply too), the wall clock in
  seconds, and the trace of everything the client did. The replies are streams: a
  server never runs out of answers, so a client that keeps asking keeps running.
\<close>

record world =
  get_replies :: "(error + http_response) stream"
  post_replies :: "(error + http_response) stream"
  now :: real
  trace :: "event list"

definition http_get ::
  "string \<Rightarrow> params \<Rightarrow> (string \<times> header_val) list \<Rightarrow> world \<Rightarrow> (error + http_response) \<times> world" where
  "http_get url ps hs w =
     (shd (get_replies w),
      w\<lparr>get_replies := stl (get_replies w), trace := trace w @ [HttpGet url ps hs]\<rparr>)"

definition http_post ::
  "string \<Rightarrow> (string \<times> string) list \<Rightarrow> world \<Rightarrow> (error + http_response) \<times> world" where
  "http_post url body w =
     (shd (post_replies w),
      w\<lparr>post_replies := stl (post_replies w), trace := trace w @ [HttpPost url body]\<rparr>)"

definition sleep :: "real \<Rightarrow> world \<Rightarrow> world" where
  "sleep d w = w\<lparr>now := now w + d, trace := trace w @ [Sleep d]\<rparr>"

text \<open>\<^verbatim>\<open>response.headers.get(name)\<close>: the header's string, or \<^verbatim>\<open>None\<close>.\<close>

definition headers_get :: "http_response \<Rightarrow> string \<Rightarrow> pyval" where
  "headers_get response name =
     (case map_of (resp_headers response) name of None \<Rightarrow> PyNone | Some s \<Rightarrow> PyStr s)"

section \<open>The client object\<close>

datatype session = Session

text \<open>
  The attributes of a \<^verbatim>\<open>HelixAPI\<close> instance. \<open>access_token\<close>, \<open>headers\<close> and \<open>http\<close> are
  \<open>None\<close> until \<^verbatim>\<open>__init__\<close> assigns them. \<open>refresh_access_token_attr\<close> is the instance
  attribute named \<^verbatim>\<open>_refresh_access_token\<close>: \<open>None\<close> while only the method of the class
  exists, \<open>Some v\<close> once an assignment through \<^verbatim>\<open>self\<close> has put \<open>v\<close> in front
  of it. The two rate-limit attributes start from the class attributes.
\<close>

record client =
  client_id :: string
  client_secret :: string
  access_token_refresh_callback :: "(pyval \<Rightarrow> error option) option"
  access_token_refreshed :: bool
  access_token :: "pyval option"
  headers :: "(string \<times> header_val) list option"
  http :: "session option"
  ratelimit_reset_timestamp :: pyval
  ratelimit_remaining :: pyval
  refresh_access_token_attr :: "pyval option"

definition BASE_URL :: string where
  "BASE_URL = ''https://api.twitch.tv/helix/''"

definition TOKEN_URL :: string where
  "TOKEN_URL = ''https://id.twitch.tv/oauth2/token''"

definition setup_http_client :: session where
  "setup_http_client = Session"

text \<open>
  \<^verbatim>\<open>0.1 + reset_time\<close> converts the integer to a float, which raises once its
  magnitude reaches \<open>2 ^ 1024 - 2 ^ 970\<close>, the first integer that rounds beyond the
  largest double.
\<close>

definition float_overflows :: "int \<Rightarrow> bool" where
  "float_overflows n = (2 ^ 1024 - 2 ^ 970 \<le> \<bar>n\<bar>)"

text \<open>
  \<^verbatim>\<open>_wait_for_rate_limit_reset\<close>: raises unless the recorded remaining quota equals the
  integer 0; otherwise sleeps until a tenth of a second after the reset time, if that
  lies ahead. The clock and the waiting time are real numbers: the rounding of the
  floating-point sum is left out.
\<close>

definition wait_for_rate_limit_reset :: "client \<Rightarrow> world \<Rightarrow> error + world" where
  "wait_for_rate_limit_reset self w =
     (if py_ne_zero (ratelimit_remaining self)
      then Inl (PyException ''Request returned 429 but rate limit is not 0...?'')
      else
        (let current_time = now w
         in case py_int (ratelimit_reset_timestamp self) of
              Inl e \<Rightarrow> Inl e
            | Inr reset_time \<Rightarrow>
                if float_overflows reset_time
                then Inl (OverflowError ''int too large to convert to float'')
                else
                  (let wait_time = 0.1 + real_of_int reset_time - current_time
                   in if wait_time > 0 then Inr (sleep wait_time w) else Inr w)))"

text \<open>
  \<^verbatim>\<open>_refresh_access_token\<close>, the method of the class. The statement
  \<^verbatim>\<open>response.raise_for_status\<close> names the method without calling it, so it has no
  effect and no branch here. The callback runs after the token and the header are
  stored and before the flag is set.
\<close>

definition refresh_access_token :: "client \<Rightarrow> world \<Rightarrow> (error + unit) \<times> client \<times> world" where
  "refresh_access_token self w =
     (let post_data = [(''client_id'', client_id self),
                       (''client_secret'', client_secret self),
                       (''grant_type'', ''client_credentials'')]
      in case http self of
           None \<Rightarrow> (Inl (AttributeError ''http''), self, w)
         | Some s \<Rightarrow>
             (case http_post TOKEN_URL post_data w of
                (Inl e, w1) \<Rightarrow> (Inl e, self, w1)
              | (Inr response, w1) \<Rightarrow>
                  (case json response of
                     None \<Rightarrow> (Inl JSONDecodeError, self, w1)
                   | Some response_data \<Rightarrow>
                       (case subscript response_data ''access_token'' of
                          Inl e \<Rightarrow> (Inl e, self, w1)
                        | Inr token \<Rightarrow>
                            (let self1 = self\<lparr>access_token := Some token\<rparr>
                             in case headers self1 of
                                  None \<Rightarrow> (Inl (AttributeError ''headers''), self1, w1)
                                | Some hs \<Rightarrow>
                                    (let self2 = self1\<lparr>headers :=
                                           Some (AList.update ''Authorization'' (Bearer token) hs)\<rparr>
                                     in case access_token_refresh_callback self2 of
                                          None \<Rightarrow>
                                            (Inr (), self2\<lparr>access_token_refreshed := True\<rparr>, w1)
                                        | Some callback \<Rightarrow>
                                            (let w2 = w1\<lparr>trace := trace w1 @ [CallbackCall token]\<rparr>
                                             in case callback token of
                                                  Some e \<Rightarrow> (Inl e, self2, w2)
                                                | None \<Rightarrow>
                                                    (Inr (), self2\<lparr>access_token_refreshed := True\<rparr>,
                                                     w2))))))))"

text \<open>
  The call \<^verbatim>\<open>self._refresh_access_token()\<close>: attribute lookup finds an instance
  attribute before the method of the class, and no value of \<open>pyval\<close> is callable.
\<close>

definition call_refresh_access_token :: "client \<Rightarrow> world \<Rightarrow> (error + unit) \<times> client \<times> world" where
  "call_refresh_access_token self w =
     (case refresh_access_token_attr self of
        None \<Rightarrow> refresh_access_token self w
      | Some v \<Rightarrow> (Inl (TypeError ''object is not callable''), self, w))"

section \<open>\<^verbatim>\<open>_get_request\<close>\<close>

text \<open>
  The two facts the recursion of \<^verbatim>\<open>_get_request\<close> rests on: a quota read from a
  header is a string or \<^verbatim>\<open>None\<close>, never the integer 0, so the wait that follows a 429
  raises; and a refresh that returns has set the flag.
\<close>

lemma header_ne_zero: "py_ne_zero (headers_get response name)"
  by (simp add: headers_get_def split: option.splits)

lemma refresh_sets_flag:
  "refresh_access_token self w = (Inr u, self', w') \<Longrightarrow> access_token_refreshed self'"
  by (auto simp: refresh_access_token_def Let_def split: option.splits sum.splits prod.splits)

lemma call_refresh_sets_flag:
  "call_refresh_access_token self w = (Inr u, self', w') \<Longrightarrow> access_token_refreshed self'"
  by (auto simp: call_refresh_access_token_def split: option.splits dest: refresh_sets_flag)

text \<open>
  \<^verbatim>\<open>_get_request\<close>: one GET, the two rate-limit attributes overwritten from the
  response's headers, then the branch on the status code. The success branch assigns
  \<^verbatim>\<open>self._refresh_access_token = False\<close>, an instance attribute of that name. The
  429 and 401 branches call the function again.
\<close>

function get_request ::
  "string \<Rightarrow> params \<Rightarrow> client \<Rightarrow> world \<Rightarrow> (error + pyval) \<times> client \<times> world" where
  "get_request endpoint ps self w =
     (case http self of
        None \<Rightarrow> (Inl (AttributeError ''http''), self, w)
      | Some s \<Rightarrow>
          (case headers self of
             None \<Rightarrow> (Inl (AttributeError ''headers''), self, w)
           | Some hs \<Rightarrow>
               (case http_get (BASE_URL @ endpoint) ps hs w of
                  (Inl e, w1) \<Rightarrow> (Inl e, self, w1)
                | (Inr response, w1) \<Rightarrow>
                    (let self1 = self\<lparr>ratelimit_remaining := headers_get response ''Ratelimit-Remaining'',
                                       ratelimit_reset_timestamp := headers_get response ''Ratelimit-Reset''\<rparr>
                     in if status_code response = 200 then
                          (let self2 = self1\<lparr>refresh_access_token_attr := Some (PyBool False)\<rparr>
                           in case json response of
                                None \<Rightarrow> (Inl JSONDecodeError, self2, w1)
                              | Some body \<Rightarrow> (Inr body, self2, w1))
                        else if status_code response = 429 then
                          (case wait_for_rate_limit_reset self1 w1 of
                             Inl e \<Rightarrow> (Inl e, self1, w1)
                           | Inr w2 \<Rightarrow> get_request endpoint ps self1 w2)
                        else if status_code response = 401 then
                          (if access_token_refreshed self1 then (Inl (PyException []), self1, w1)
                           else
                             (case call_refresh_access_token self1 w1 of
                                (Inl e, self2, w2) \<Rightarrow> (Inl e, self2, w2)
                              | (Inr u, self2, w2) \<Rightarrow> get_request endpoint ps self2 w2))
                        else (Inl (PyException []), self1, w1)))))"
  by pat_completeness auto
termination
  by (relation "measure (\<lambda>(endpoint, ps, self, w). if access_token_refreshed self then 0 else 1)")
     (auto simp: wait_for_rate_limit_reset_def header_ne_zero dest: call_refresh_sets_flag [OF sym])

declare get_request.simps [simp del]

section \<open>\<^verbatim>\<open>_paginated_request\<close>\<close>

text \<open>
  The \<^verbatim>\<open>try\<close> around \<^verbatim>\<open>response['pagination']['cursor']\<close> with its bare
  \<^verbatim>\<open>except\<close>: any failure of the two subscripts means no cursor.
\<close>

definition cursor_of :: "pyval \<Rightarrow> pyval option" where
  "cursor_of response =
     (case subscript response ''pagination'' of
        Inl e \<Rightarrow> None
      | Inr pagination \<Rightarrow>
          (case subscript pagination ''cursor'' of Inl e \<Rightarrow> None | Inr cursor \<Rightarrow> Some cursor))"

text \<open>
  The \<^verbatim>\<open>while\<close> loop of \<^verbatim>\<open>_paginated_request\<close>, with the caller's \<^verbatim>\<open>params\<close>
  dictionary, \<^verbatim>\<open>records_to_go\<close> and \<^verbatim>\<open>responses_data\<close> as loop state; the dictionary
  is returned because the caller sees its mutation. Against a server that keeps sending
  cursors the loop does not end: the result is then \<open>None\<close>.
\<close>

partial_function (option) paginate ::
  "string \<Rightarrow> int \<Rightarrow> int option \<Rightarrow> params \<Rightarrow> int \<Rightarrow> pyval list \<Rightarrow> client \<Rightarrow> world
     \<Rightarrow> ((error + pyval list) \<times> params \<times> client \<times> world) option" where
  "paginate endpoint max_records_per_page cap_records ps records_to_go responses_data self w =
     (if records_to_go > 0 \<or> cap_records = None then
        (let ps1 = AList.update ''first'' (PyInt (min max_records_per_page records_to_go)) ps
         in case get_request endpoint ps1 self w of
              (Inl e, self1, w1) \<Rightarrow> Some (Inl e, ps1, self1, w1)
            | (Inr response, self1, w1) \<Rightarrow>
                (case subscript response ''data'' of
                   Inl e \<Rightarrow> Some (Inl e, ps1, self1, w1)
                 | Inr d \<Rightarrow>
                     (case py_iter d of
                        Inl e \<Rightarrow> Some (Inl e, ps1, self1, w1)
                      | Inr items \<Rightarrow>
                          (let responses_data1 = responses_data @ items;
                               records_to_go1 = records_to_go - int (length items)
                           in case cursor_of response of
                                None \<Rightarrow> Some (Inr responses_data1, ps1, self1, w1)
                              | Some cursor \<Rightarrow>
                                  paginate endpoint max_records_per_page cap_records
                                    (AList.update ''after'' cursor ps1) records_to_go1
                                    responses_data1 self1 w1))))
      else Some (Inr responses_data, ps, self, w))"

definition paginated_request ::
  "string \<Rightarrow> params \<Rightarrow> int \<Rightarrow> int option \<Rightarrow> client \<Rightarrow> world
     \<Rightarrow> ((error + pyval list) \<times> params \<times> client \<times> world) option" where
  "paginated_request endpoint ps max_records_per_page cap_records self w =
     (let records_to_go = (case cap_records of None \<Rightarrow> max_records_per_page | Some cap \<Rightarrow> cap)
      in paginate endpoint max_records_per_page cap_records ps records_to_go [] self w)"

section \<open>The constructor\<close>

text \<open>
  \<^verbatim>\<open>__init__\<close>: without an access token it calls \<^verbatim>\<open>_refresh_access_token\<close> before
  \<^verbatim>\<open>self.headers\<close> and \<^verbatim>\<open>self.http\<close> exist.
\<close>

definition init ::
  "string \<Rightarrow> string \<Rightarrow> string option \<Rightarrow> (pyval \<Rightarrow> error option) option \<Rightarrow> world
     \<Rightarrow> (error + client) \<times> world" where
  "init cid secret token callback w =
     (let self = \<lparr>client_id = cid, client_secret = secret,
                   access_token_refresh_callback = callback,
                   access_token_refreshed = False,
                   access_token = None, headers = None, http = None,
                   ratelimit_reset_timestamp = PyStr ''0'', ratelimit_remaining = PyInt 0,
                   refresh_access_token_attr = None\<rparr>
      in case (case token of
                 None \<Rightarrow> call_refresh_access_token self w
               | Some t \<Rightarrow> (Inr (), self\<lparr>access_token := Some (PyStr t)\<rparr>, w)) of
           (Inl e, self1, w1) \<Rightarrow> (Inl e, w1)
         | (Inr u, self1, w1) \<Rightarrow>
             (case access_token self1 of
                None \<Rightarrow> (Inl (AttributeError ''access_token''), w1)
              | Some t \<Rightarrow>
                  (Inr (self1\<lparr>headers := Some [(''Client-ID'', Plain (client_id self1)),
                                               (''Authorization'', Bearer t)],
                              http := Some setup_http_client\<rparr>), w1)))"

section \<open>The public query methods\<close>

text \<open>
  \<^verbatim>\<open>datetime_to_str\<close>; the rendering \<^verbatim>\<open>dt.astimezone().isoformat()\<close> belongs to the
  standard library and the local time zone, and is a parameter.
\<close>

definition datetime_to_str :: "('dt \<Rightarrow> string) \<Rightarrow> 'dt option \<Rightarrow> pyval" where
  "datetime_to_str isoformat dt = (case dt of None \<Rightarrow> PyNone | Some d \<Rightarrow> PyStr (isoformat d))"

definition opt_str :: "string option \<Rightarrow> pyval" where
  "opt_str v = (case v of None \<Rightarrow> PyNone | Some s \<Rightarrow> PyStr s)"

definition opt_strs :: "string list option \<Rightarrow> pyval" where
  "opt_strs v = (case v of None \<Rightarrow> PyNone | Some xs \<Rightarrow> PyList (map PyStr xs))"

text \<open>\<^verbatim>\<open>len(v) if v is not None else 0\<close>\<close>

definition len_or_0 :: "string list option \<Rightarrow> nat" where
  "len_or_0 v = (case v of None \<Rightarrow> 0 | Some xs \<Rightarrow> length xs)"

text \<open>\<^verbatim>\<open>sum([a is not None, b is not None, c is not None])\<close>\<close>

definition count_given :: "bool list \<Rightarrow> nat" where
  "count_given bs = length (filter (\<lambda>b. b) bs)"

text \<open>What a method that paginates hands back: the list, without the local \<^verbatim>\<open>params\<close>.\<close>

definition returned ::
  "((error + pyval list) \<times> params \<times> client \<times> world) option
     \<Rightarrow> ((error + pyval) \<times> client \<times> world) option" where
  "returned r = map_option (\<lambda>(res, ps, self, w). (map_sum id PyList res, self, w)) r"

definition get_clips ::
  "('dt \<Rightarrow> string) \<Rightarrow> string option \<Rightarrow> string option \<Rightarrow> string list option
     \<Rightarrow> 'dt option \<Rightarrow> 'dt option \<Rightarrow> int option \<Rightarrow> client \<Rightarrow> world
     \<Rightarrow> ((error + pyval) \<times> client \<times> world) option" where
  "get_clips isoformat broadcaster_id game_id clip_id started_at ended_at cap_records self w =
     (if clip_id \<noteq> None \<and> len_or_0 clip_id > 100
      then Some (Inl (ValueError ''A maximum of 100 clips can be queried in one call''), self, w)
      else if count_given [clip_id \<noteq> None, broadcaster_id \<noteq> None, game_id \<noteq> None] \<noteq> 1
      then Some (Inl (ValueError
             ''The clip_id, broadcaster_id, and game_id parameters are mutually exclusive.''),
             self, w)
      else
        (let ps = [(''broadcaster_id'', opt_str broadcaster_id),
                   (''game_id'', opt_str game_id),
                   (''id'', opt_strs clip_id),
                   (''started_at'', datetime_to_str isoformat started_at),
                   (''ended_at'', datetime_to_str isoformat ended_at)]
         in returned (paginated_request ''clips'' ps 100 cap_records self w)))"

definition get_top_games ::
  "int option \<Rightarrow> client \<Rightarrow> world \<Rightarrow> ((error + pyval) \<times> client \<times> world) option" where
  "get_top_games cap_records self w =
     returned (paginated_request ''games/top'' [] 100 cap_records self w)"

definition get_games ::
  "string list option \<Rightarrow> string list option \<Rightarrow> string list option \<Rightarrow> client \<Rightarrow> world
     \<Rightarrow> (error + pyval) \<times> client \<times> world" where
  "get_games game_ids names igdb_ids self w =
     (if game_ids = None \<and> names = None \<and> igdb_ids = None
      then (Inl (ValueError ''You have to specify a list of game IDs, names, or both.''), self, w)
      else if len_or_0 game_ids + len_or_0 names + len_or_0 igdb_ids > 100
      then (Inl (ValueError ''The sum total of the number of games you may look up is 100.''),
            self, w)
      else
        (let ps = [(''id'', opt_strs game_ids),
                   (''name'', opt_strs names),
                   (''igdb_id'', opt_strs igdb_ids)]
         in get_request ''games'' ps self w))"

text \<open>
  \<^verbatim>\<open>get_users\<close>; its two \<^verbatim>\<open>isinstance\<close> checks hold of every \<open>string list option\<close>.
\<close>

definition get_users ::
  "string list option \<Rightarrow> string list option \<Rightarrow> client \<Rightarrow> world
     \<Rightarrow> (error + pyval) \<times> client \<times> world" where
  "get_users user_ids logins self w =
     (if user_ids = None \<and> logins = None
      then (Inl (ValueError ''You have to specify a list of user IDs, login names, or both.''),
            self, w)
      else if len_or_0 user_ids + len_or_0 logins > 100
      then (Inl (ValueError ''The sum total of the number of users you may look up is 100.''),
            self, w)
      else
        (let ps = [(''id'', opt_strs user_ids), (''logins'', opt_strs logins)]
         in case get_request ''users'' ps self w of
              (Inl e, self1, w1) \<Rightarrow> (Inl e, self1, w1)
            | (Inr response, self1, w1) \<Rightarrow> (subscript response ''data'', self1, w1)))"

definition get_users_follows ::
  "string option \<Rightarrow> string option \<Rightarrow> int option \<Rightarrow> client \<Rightarrow> world
     \<Rightarrow> ((error + pyval) \<times> client \<times> world) option" where
  "get_users_follows from_id to_id cap_records self w =
     (if from_id = None \<and> to_id = None
      then Some (Inl (ValueError ''You must specify from_id, to_id, or both.''), self, w)
      else
        (let max_records_per_page = 100;
             ps = [(''from_id'', opt_str from_id), (''to_id'', opt_str to_id),
                   (''first'', PyInt 1)]
         in if (case cap_records of None \<Rightarrow> 1 | Some cap \<Rightarrow> cap) > max_records_per_page
            then Some (get_request ''users/follows''
                         (AList.update ''first''
                            (case cap_records of None \<Rightarrow> PyNone | Some cap \<Rightarrow> PyInt cap) ps)
                         self w)
            else
              (case get_request ''users/follows'' ps self w of
                 (Inl e, self1, w1) \<Rightarrow> Some (Inl e, self1, w1)
               | (Inr initial_response, self1, w1) \<Rightarrow>
                   (case subscript initial_response ''total'' of
                      Inl e \<Rightarrow> Some (Inl e, self1, w1)
                    | Inr total_field \<Rightarrow>
                        (case paginated_request ''user/follows'' ps max_records_per_page
                                cap_records self1 w1 of
                           None \<Rightarrow> None
                         | Some (Inl e, ps1, self2, w2) \<Rightarrow> Some (Inl e, self2, w2)
                         | Some (Inr data, ps1, self2, w2) \<Rightarrow>
                             Some (Inr (PyDict [(''total'', total_field), (''data'', PyList data)]),
                                   self2, w2))))))"

text \<open>
  \<^verbatim>\<open>get_videos\<close>. The source file ends inside its last call, after
  \<^verbatim>\<open>max_records_per_page=100,\<close>; the call is completed with the method's own
  \<^verbatim>\<open>cap_records\<close>, as in \<^verbatim>\<open>get_clips\<close>.
\<close>

definition get_videos ::
  "string list option \<Rightarrow> string option \<Rightarrow> string option \<Rightarrow> string option \<Rightarrow> string option
     \<Rightarrow> string option \<Rightarrow> string option \<Rightarrow> int option \<Rightarrow> client \<Rightarrow> world
     \<Rightarrow> ((error + pyval) \<times> client \<times> world) option" where
  "get_videos video_ids user_id game_id language period sort_arg video_type cap_records self w =
     (if video_ids \<noteq> None \<and> len_or_0 video_ids > 100
      then Some (Inl (ValueError ''A maximum of 100 video IDs can be queried in one call''), self, w)
      else if count_given [video_ids \<noteq> None, user_id \<noteq> None, game_id \<noteq> None] \<noteq> 1
      then Some (Inl (ValueError ''The id, user_id, and game_id parameters are mutually exclusive.''),
                 self, w)
      else if language \<noteq> None \<and> game_id = None
      then Some (Inl (ValueError
             ''Specify language only if you specify the game_id query parameter.''), self, w)
      else if period \<noteq> None \<and> (game_id = None \<and> user_id = None)
      then Some (Inl (ValueError
             ''Specify period only if you specify the game_id or user_id query parameter.''),
             self, w)
      else if sort_arg \<noteq> None \<and> (game_id = None \<and> user_id = None)
      then Some (Inl (ValueError
             ''Specify sort only if you specify the game_id or user_id query parameter.''),
             self, w)
      else if video_type \<noteq> None \<and> (game_id = None \<and> user_id = None)
      then Some (Inl (ValueError
             ''Specify video_type only if you specify the game_id or user_id query parameter.''),
             self, w)
      else if cap_records \<noteq> None \<and> (game_id = None \<and> user_id = None)
      then Some (Inl (ValueError
             ''Specify cap_records only if you specify the game_id or user_id query parameter.''),
             self, w)
      else
        (let ps = [(''id'', opt_strs video_ids),
                   (''user_id'', opt_str user_id),
                   (''game_id'', opt_str game_id),
                   (''language'', opt_str language),
                   (''period'', opt_str period),
                   (''sort'', opt_str sort_arg),
                   (''type'', opt_str video_type)]
         in if video_ids \<noteq> None
            then (case get_request ''videos'' ps self w of
                    (Inl e, self1, w1) \<Rightarrow> Some (Inl e, self1, w1)
                  | (Inr response, self1, w1) \<Rightarrow> Some (subscript response ''data'', self1, w1))
            else returned (paginated_request ''videos'' ps 100 cap_records self w)))"

section \<open>Pages: the loop seen from the server's answers\<close>

text \<open>
  What a response is to \<^verbatim>\<open>_paginated_request\<close> when the request succeeds: the records
  under \<^verbatim>\<open>data\<close> and the cursor, if the body has one. \<open>None\<close> for every response
  the loop does not get through (another status, no JSON, no iterable \<^verbatim>\<open>data\<close>).
\<close>

type_synonym page = "pyval list \<times> pyval option"

definition page_of :: "http_response \<Rightarrow> page option" where
  "page_of r =
     (if status_code r = 200 then
        (case json r of
           None \<Rightarrow> None
         | Some body \<Rightarrow>
             (case subscript body ''data'' of
                Inl e \<Rightarrow> None
              | Inr d \<Rightarrow>
                  (case py_iter d of
                     Inl e \<Rightarrow> None
                   | Inr items \<Rightarrow> Some (items, cursor_of body))))
      else None)"

text \<open>The sum of the record counts of the first \<open>j\<close> pages.\<close>

definition fetched :: "page list \<Rightarrow> nat \<Rightarrow> int" where
  "fetched pages j = int (sum_list (map (\<lambda>p. length (fst p)) (take j pages)))"

text \<open>The number of GET requests in a trace.\<close>

fun is_get :: "event \<Rightarrow> bool" where
  "is_get (HttpGet url ps hs) = True"
| "is_get e = False"

definition num_gets :: "event list \<Rightarrow> nat" where
  "num_gets tr = length (filter is_get tr)"

text \<open>The last cursor among the pages, if any page carries one.\<close>

fun last_cursor :: "page list \<Rightarrow> pyval option" where
  "last_cursor [] = None"
| "last_cursor (p # pages) = (case last_cursor pages of Some c \<Rightarrow> Some c | None \<Rightarrow> snd p)"

text \<open>
  The pages among the answers a call has consumed, in order: an exception of the
  transport and a response the loop does not get through (a 401 that is retried, for
  one) is no page.
\<close>

fun pages_seen :: "(error + http_response) list \<Rightarrow> page list" where
  "pages_seen [] = []"
| "pages_seen (Inl e # xs) = pages_seen xs"
| "pages_seen (Inr r # xs) =
     (case page_of r of None \<Rightarrow> pages_seen xs | Some p \<Rightarrow> p # pages_seen xs)"

text \<open>
  The loop of \<^verbatim>\<open>_paginated_request\<close> replayed on a list of pages, without client and
  world: how many pages it fetches, what it leaves in \<^verbatim>\<open>params\<close>, and the requests it
  sends. Lemma \<open>paginate_pages\<close> below shows that the loop itself does exactly this.
\<close>

fun pages_run :: "int option \<Rightarrow> int \<Rightarrow> page list \<Rightarrow> nat" where
  "pages_run cap rtg [] = 0"
| "pages_run cap rtg (p # pages) =
     (if 0 < rtg \<or> cap = None then
        (case snd p of
           None \<Rightarrow> 1
         | Some c \<Rightarrow> Suc (pages_run cap (rtg - int (length (fst p))) pages))
      else 0)"

fun params_run :: "int \<Rightarrow> int option \<Rightarrow> int \<Rightarrow> params \<Rightarrow> page list \<Rightarrow> params" where
  "params_run maxp cap rtg ps [] = ps"
| "params_run maxp cap rtg ps (p # pages) =
     (if 0 < rtg \<or> cap = None then
        (case snd p of
           None \<Rightarrow> AList.update ''first'' (PyInt (min maxp rtg)) ps
         | Some c \<Rightarrow>
             params_run maxp cap (rtg - int (length (fst p)))
               (AList.update ''after'' c (AList.update ''first'' (PyInt (min maxp rtg)) ps)) pages)
      else ps)"

fun requests_run ::
  "string \<Rightarrow> (string \<times> header_val) list \<Rightarrow> int \<Rightarrow> int option \<Rightarrow> int \<Rightarrow> params \<Rightarrow> page list
     \<Rightarrow> event list" where
  "requests_run url hs maxp cap rtg ps [] = []"
| "requests_run url hs maxp cap rtg ps (p # pages) =
     (if 0 < rtg \<or> cap = None then
        HttpGet url (AList.update ''first'' (PyInt (min maxp rtg)) ps) hs #
        (case snd p of
           None \<Rightarrow> []
         | Some c \<Rightarrow>
             requests_run url hs maxp cap (rtg - int (length (fst p)))
               (AList.update ''after'' c (AList.update ''first'' (PyInt (min maxp rtg)) ps)) pages)
      else [])"

section \<open>Concrete clients and servers\<close>

text \<open>
  A server that has nothing more to say: every further request fails in the transport.
\<close>

definition silent :: "(error + http_response) stream" where
  "silent = sconst (Inl (TransportError ''no reply''))"

definition reply :: "int \<Rightarrow> (string \<times> string) list \<Rightarrow> pyval option \<Rightarrow> http_response" where
  "reply code hs body = \<lparr>status_code = code, reason = [], resp_headers = hs, json = body\<rparr>"

text \<open>
  The world at time 0 in which the data endpoints answer \<open>gets\<close> and the token endpoint
  answers \<open>posts\<close>, in that order, and nothing has happened yet.
\<close>

definition world0 :: "(error + http_response) list \<Rightarrow> (error + http_response) list \<Rightarrow> world" where
  "world0 gets posts =
     \<lparr>get_replies = gets @- silent, post_replies = posts @- silent, now = 0, trace = []\<rparr>"

text \<open>The client \<^verbatim>\<open>HelixAPI("id", "secret", access_token="tok")\<close>.\<close>

definition client0 :: client where
  "client0 = \<lparr>client_id = ''id'', client_secret = ''secret'',
               access_token_refresh_callback = None,
               access_token_refreshed = False,
               access_token = Some (PyStr ''tok''),
               headers = Some [(''Client-ID'', Plain ''id''),
                               (''Authorization'', Bearer (PyStr ''tok''))],
               http = Some Session,
               ratelimit_reset_timestamp = PyStr ''0'', ratelimit_remaining = PyInt 0,
               refresh_access_token_attr = None\<rparr>"

text \<open>Two refresh callbacks: one that raises, one that returns.\<close>

definition failing_callback :: "pyval \<Rightarrow> error option" where
  "failing_callback token = Some (CallbackError ''callback failed'')"

definition quiet_callback :: "pyval \<Rightarrow> error option" where
  "quiet_callback token = None"

text \<open>
  A page of \<open>n\<close> clips as Twitch sends it: the records under \<^verbatim>\<open>data\<close>, the cursor
  under \<^verbatim>\<open>pagination\<close> when there is a next page.
\<close>

definition clip :: pyval where
  "clip = PyDict [(''id'', PyStr ''clip'')]"

definition clips_page :: "nat \<Rightarrow> string option \<Rightarrow> http_response" where
  "clips_page n cursor =
     reply 200 []
       (Some (PyDict [(''data'', PyList (replicate n clip)),
                      (''pagination'',
                       (case cursor of None \<Rightarrow> PyDict [] | Some c \<Rightarrow> PyDict [(''cursor'', PyStr c)]))]))"

text \<open>Pages of 100, 100 and 50 clips with cursors A, B and none.\<close>

definition three_replies :: "http_response list" where
  "three_replies = [clips_page 100 (Some ''A''), clips_page 100 (Some ''B''), clips_page 50 None]"

definition three_pages :: "page list" where
  "three_pages = [(replicate 100 clip, Some (PyStr ''A'')),
                  (replicate 100 clip, Some (PyStr ''B'')),
                  (replicate 50 clip, None)]"

text \<open>Two pages of one clip each, the first with cursor A.\<close>

definition two_replies :: "http_response list" where
  "two_replies = [clips_page 1 (Some ''A''), clips_page 1 None]"

definition two_pages :: "page list" where
  "two_pages = [([clip], Some (PyStr ''A'')), ([clip], None)]"

text \<open>
  A server that rejects the first request with a 401, issues the token \<^verbatim>\<open>new\<close>, and then
  sends the two pages; and the client and the world that a request for five clips leaves
  behind there.
\<close>

definition retry_world :: world where
  "retry_world =
     world0 [Inr (reply 401 [] None), Inr (clips_page 1 (Some ''A'')), Inr (clips_page 1 None)]
            [Inr (reply 200 [] (Some (PyDict [(''access_token'', PyStr ''new'')])))]"

definition retried_client :: client where
  "retried_client =
     client0\<lparr>access_token_refreshed := True,
             access_token := Some (PyStr ''new''),
             headers := Some [(''Client-ID'', Plain ''id''),
                              (''Authorization'', Bearer (PyStr ''new''))],
             ratelimit_reset_timestamp := PyNone, ratelimit_remaining := PyNone,
             refresh_access_token_attr := Some (PyBool False)\<rparr>"

definition retried_world :: world where
  "retried_world =
     \<lparr>get_replies = silent, post_replies = silent, now = 0,
      trace = [HttpGet ''https://api.twitch.tv/helix/clips''
                 [(''broadcaster_id'', PyStr ''123''), (''first'', PyInt 5)]
                 [(''Client-ID'', Plain ''id''), (''Authorization'', Bearer (PyStr ''tok''))],
               HttpPost ''https://id.twitch.tv/oauth2/token''
                 [(''client_id'', ''id''), (''client_secret'', ''secret''),
                  (''grant_type'', ''client_credentials'')],
               HttpGet ''https://api.twitch.tv/helix/clips''
                 [(''broadcaster_id'', PyStr ''123''), (''first'', PyInt 5)]
                 [(''Client-ID'', Plain ''id''), (''Authorization'', Bearer (PyStr ''new''))],
               HttpGet ''https://api.twitch.tv/helix/clips''
                 [(''broadcaster_id'', PyStr ''123''), (''first'', PyInt 4),
                  (''after'', PyStr ''A'')]
                 [(''Client-ID'', Plain ''id''), (''Authorization'', Bearer (PyStr ''new''))]]\<rparr>"

section \<open>The constructor's two outcomes\<close>

lemma init_client0: "init ''id'' ''secret'' (Some ''tok'') None w = (Inr client0, w)"
  by (simp add: init_def client0_def setup_http_client_def)

text \<open>
  Without an access token the constructor never returns a client: its refresh reads
  \<^verbatim>\<open>self.http\<close> before \<^verbatim>\<open>__init__\<close> has assigned it, and no request is sent.
\<close>

lemma init_without_token: "init cid secret None callback w = (Inl (AttributeError ''http''), w)"
  by (simp add: init_def call_refresh_access_token_def refresh_access_token_def)

lemmas run_defs =
  client0_def world0_def reply_def http_get_def http_post_def headers_get_def
  BASE_URL_def TOKEN_URL_def call_refresh_access_token_def refresh_access_token_def
  wait_for_rate_limit_reset_def

section \<open>One response at a time\<close>

lemma get_request_transport_error:
  assumes "http self = Some s" and "headers self = Some hs"
    and "shd (get_replies w) = Inl e"
  shows "get_request endpoint ps self w =
           (Inl e, self,
            w\<lparr>get_replies := stl (get_replies w),
              trace := trace w @ [HttpGet (BASE_URL @ endpoint) ps hs]\<rparr>)"
  using assms by (simp add: get_request.simps http_get_def)

lemma get_request_ok:
  assumes "http self = Some s" and "headers self = Some hs"
    and "shd (get_replies w) = Inr r" and "status_code r = 200" and "json r = Some body"
  shows "get_request endpoint ps self w =
           (Inr body,
            self\<lparr>ratelimit_remaining := headers_get r ''Ratelimit-Remaining'',
                 ratelimit_reset_timestamp := headers_get r ''Ratelimit-Reset'',
                 refresh_access_token_attr := Some (PyBool False)\<rparr>,
            w\<lparr>get_replies := stl (get_replies w),
              trace := trace w @ [HttpGet (BASE_URL @ endpoint) ps hs]\<rparr>)"
  using assms by (simp add: get_request.simps http_get_def)

text \<open>
  Every 429 ends the call with the exception of \<^verbatim>\<open>_wait_for_rate_limit_reset\<close>,
  whatever the headers say: nothing is slept and nothing is retried.
\<close>

lemma get_request_too_many_requests:
  assumes "http self = Some s" and "headers self = Some hs"
    and "shd (get_replies w) = Inr r" and "status_code r = 429"
  shows "get_request endpoint ps self w =
           (Inl (PyException ''Request returned 429 but rate limit is not 0...?''),
            self\<lparr>ratelimit_remaining := headers_get r ''Ratelimit-Remaining'',
                 ratelimit_reset_timestamp := headers_get r ''Ratelimit-Reset''\<rparr>,
            w\<lparr>get_replies := stl (get_replies w),
              trace := trace w @ [HttpGet (BASE_URL @ endpoint) ps hs]\<rparr>)"
  using assms by (simp add: get_request.simps http_get_def wait_for_rate_limit_reset_def header_ne_zero)

text \<open>
  A 401 after any earlier success: the instance attribute \<^verbatim>\<open>_refresh_access_token\<close>
  is \<^verbatim>\<open>False\<close> by then, and calling it is a \<^verbatim>\<open>TypeError\<close>.
\<close>

lemma get_request_unauthorized_after_success:
  assumes "http self = Some s" and "headers self = Some hs"
    and "shd (get_replies w) = Inr r" and "status_code r = 401"
    and "\<not> access_token_refreshed self" and "refresh_access_token_attr self = Some v"
  shows "get_request endpoint ps self w =
           (Inl (TypeError ''object is not callable''),
            self\<lparr>ratelimit_remaining := headers_get r ''Ratelimit-Remaining'',
                 ratelimit_reset_timestamp := headers_get r ''Ratelimit-Reset''\<rparr>,
            w\<lparr>get_replies := stl (get_replies w),
              trace := trace w @ [HttpGet (BASE_URL @ endpoint) ps hs]\<rparr>)"
  using assms by (simp add: get_request.simps http_get_def call_refresh_access_token_def)

text \<open>The status code of the token endpoint's answer is never looked at.\<close>

lemma refresh_ignores_status:
  "fst (refresh_access_token self (w\<lparr>post_replies := Inr (r\<lparr>status_code := code\<rparr>) ## rest\<rparr>)) =
   fst (refresh_access_token self (w\<lparr>post_replies := Inr r ## rest\<rparr>)) \<and>
   fst (snd (refresh_access_token self (w\<lparr>post_replies := Inr (r\<lparr>status_code := code\<rparr>) ## rest\<rparr>))) =
   fst (snd (refresh_access_token self (w\<lparr>post_replies := Inr r ## rest\<rparr>)))"
  by (simp add: refresh_access_token_def http_post_def Let_def
           split: option.splits sum.splits)

text \<open>
  The wait itself, for a client whose recorded quota is the integer 0 (the class
  attribute, before any response) and whose reset time converts to a float: it sleeps
  until a tenth of a second after the reset time, or not at all when that moment has
  passed.
\<close>

lemma wait_when_quota_is_zero:
  assumes "ratelimit_remaining self = PyInt 0"
    and "py_int (ratelimit_reset_timestamp self) = Inr reset_time"
    and "\<not> float_overflows reset_time"
  shows "wait_for_rate_limit_reset self w =
           Inr (if 0.1 + real_of_int reset_time - now w > 0
                then sleep (0.1 + real_of_int reset_time - now w) w else w)"
  using assms by (simp add: wait_for_rate_limit_reset_def Let_def)

text \<open>
  Within one logical call of a fresh client the guard works: a 401, a successful
  refresh and a second 401 end the call with the bare exception, after two GETs and one
  POST.
\<close>

lemma second_unauthorized_raises:
  "get_request ''users'' [] client0
     (world0 [Inr (reply 401 [] None), Inr (reply 401 [] None),
              Inr (reply 200 [] (Some (PyDict [(''data'', PyList [])])))]
             [Inr (reply 200 [] (Some (PyDict [(''access_token'', PyStr ''new'')])))])
   = (Inl (PyException []),
      client0\<lparr>access_token_refreshed := True,
              access_token := Some (PyStr ''new''),
              headers := Some [(''Client-ID'', Plain ''id''),
                               (''Authorization'', Bearer (PyStr ''new''))],
              ratelimit_reset_timestamp := PyNone, ratelimit_remaining := PyNone\<rparr>,
      \<lparr>get_replies = Inr (reply 200 [] (Some (PyDict [(''data'', PyList [])]))) ## silent,
       post_replies = silent, now = 0,
       trace = [HttpGet ''https://api.twitch.tv/helix/users'' []
                  [(''Client-ID'', Plain ''id''), (''Authorization'', Bearer (PyStr ''tok''))],
                HttpPost ''https://id.twitch.tv/oauth2/token''
                  [(''client_id'', ''id''), (''client_secret'', ''secret''),
                   (''grant_type'', ''client_credentials'')],
                HttpGet ''https://api.twitch.tv/helix/users'' []
                  [(''Client-ID'', Plain ''id''), (''Authorization'', Bearer (PyStr ''new''))]]\<rparr>)"
  by (simp add: get_request.simps run_defs)

section \<open>The pagination loop on a list of pages\<close>

lemma page_of_clips_page [simp]:
  "page_of (clips_page n cursor) = Some (replicate n clip, map_option PyStr cursor)"
  by (cases cursor) (simp_all add: page_of_def clips_page_def reply_def cursor_of_def)

lemma page_ofD:
  assumes "page_of r = Some p"
  obtains body d where "status_code r = 200" and "json r = Some body"
    and "subscript body ''data'' = Inr d" and "py_iter d = Inr (fst p)"
    and "cursor_of body = snd p"
  using assms
  by (auto simp: page_of_def split: if_splits option.splits sum.splits)

text \<open>
  Against a server whose next answers are the pages \<open>pages\<close>, the last of them without
  a cursor, the loop returns: it fetches the first \<open>pages_run\<close> pages, in order, and
  leaves \<open>params_run\<close> in \<^verbatim>\<open>params\<close>.
\<close>

lemma paginate_pages:
  assumes "map page_of rs = map Some pages" and "pages \<noteq> []" and "snd (last pages) = None"
    and "http self = Some s" and "headers self = Some hs"
    and "get_replies w = map Inr rs @- rest"
  shows "\<exists>self'. paginate endpoint maxp cap ps rtg acc self w =
           Some (Inr (acc @ concat (map fst (take (pages_run cap rtg pages) pages))),
                 params_run maxp cap rtg ps pages, self',
                 w\<lparr>get_replies := drop (pages_run cap rtg pages) (map Inr rs) @- rest,
                   trace := trace w @
                     requests_run (BASE_URL @ endpoint) hs maxp cap rtg ps pages\<rparr>)
         \<and> http self' = Some s \<and> headers self' = Some hs"
  using assms
proof (induction pages arbitrary: rs ps rtg acc self w)
  case Nil
  then show ?case by simp
next
  case (Cons p pages)
  from Cons.prems(1) obtain r rs' where rs: "rs = r # rs'"
    and r: "page_of r = Some p" and rs': "map page_of rs' = map Some pages"
    by (cases rs) auto
  show ?case
  proof (cases "0 < rtg \<or> cap = None")
    case False
    then have stop: "(0 < rtg \<or> cap = None) = False"
      by simp
    from Cons.prems(4,5,6) show ?thesis
      by (subst paginate.simps) (simp add: rs stop)
  next
    case True
    then have go: "(0 < rtg \<or> cap = None) = True"
      by simp
    from r obtain body d where ok: "status_code r = 200" "json r = Some body"
      and d: "subscript body ''data'' = Inr d" "py_iter d = Inr (fst p)"
      and cur: "cursor_of body = snd p"
      by (rule page_ofD)
    let ?ps1 = "AList.update ''first'' (PyInt (min maxp rtg)) ps"
    let ?self1 = "self\<lparr>ratelimit_remaining := headers_get r ''Ratelimit-Remaining'',
                        ratelimit_reset_timestamp := headers_get r ''Ratelimit-Reset'',
                        refresh_access_token_attr := Some (PyBool False)\<rparr>"
    let ?w1 = "w\<lparr>get_replies := stl (get_replies w),
                  trace := trace w @ [HttpGet (BASE_URL @ endpoint) ?ps1 hs]\<rparr>"
    have shd: "shd (get_replies w) = Inr r"
      using Cons.prems(6) by (simp add: rs)
    have g: "get_request endpoint ?ps1 self w = (Inr body, ?self1, ?w1)"
      using Cons.prems(4,5) shd ok by (rule get_request_ok)
    have w1: "get_replies ?w1 = map Inr rs' @- rest"
      using Cons.prems(6) by (simp add: rs)
    show ?thesis
    proof (cases "snd p")
      case None
      with g d cur Cons.prems(4,5,6) show ?thesis
        by (subst paginate.simps) (simp add: rs go Let_def)
    next
      case (Some c)
      with Cons.prems(2,3) have ne: "pages \<noteq> []" and last: "snd (last pages) = None"
        by (auto split: if_splits)
      have "http ?self1 = Some s" and "headers ?self1 = Some hs"
        using Cons.prems(4,5) by simp_all
      from Cons.IH [OF rs' ne last this w1,
          of "AList.update ''after'' c ?ps1" "rtg - int (length (fst p))" "acc @ fst p"]
      obtain self' where
        run: "paginate endpoint maxp cap (AList.update ''after'' c ?ps1)
                (rtg - int (length (fst p))) (acc @ fst p) ?self1 ?w1 =
              Some (Inr ((acc @ fst p) @
                      concat (map fst (take (pages_run cap (rtg - int (length (fst p))) pages) pages))),
                    params_run maxp cap (rtg - int (length (fst p)))
                      (AList.update ''after'' c ?ps1) pages, self',
                    ?w1\<lparr>get_replies :=
                           drop (pages_run cap (rtg - int (length (fst p))) pages) (map Inr rs') @- rest,
                         trace := trace ?w1 @
                           requests_run (BASE_URL @ endpoint) hs maxp cap
                             (rtg - int (length (fst p))) (AList.update ''after'' c ?ps1) pages\<rparr>)"
        and self': "http self' = Some s" "headers self' = Some hs"
        by blast
      from g d cur Some run self' show ?thesis
        by (subst paginate.simps) (simp add: rs go Let_def)
    qed
  qed
qed

lemma fetched_0 [simp]: "fetched pages 0 = 0"
  by (simp add: fetched_def)

lemma fetched_Suc [simp]:
  "fetched (p # pages) (Suc j) = int (length (fst p)) + fetched pages j"
  by (simp add: fetched_def)

lemma length_concat_fetched:
  "int (length (concat (map fst (take k pages)))) = fetched pages k"
  by (simp add: fetched_def length_concat comp_def)

lemma pages_run_le: "pages_run cap rtg pages \<le> length pages"
  by (induction pages arbitrary: rtg) (auto split: option.splits)

lemma pages_run_pos: "0 < pages_run cap rtg pages \<Longrightarrow> 0 < rtg \<or> cap = None"
  by (cases pages) (auto split: if_splits)

lemma pages_run_stop:
  assumes "pages \<noteq> []" and "snd (last pages) = None"
  shows "(cap \<noteq> None \<and> rtg \<le> fetched pages (pages_run cap rtg pages)) \<or>
         (0 < pages_run cap rtg pages \<and> snd (pages ! (pages_run cap rtg pages - 1)) = None)"
  using assms
proof (induction pages arbitrary: rtg)
  case Nil
  then show ?case by simp
next
  case (Cons p pages)
  show ?case
  proof (cases "0 < rtg \<or> cap = None")
    case False
    then have stop: "(0 < rtg \<or> cap = None) = False" and "cap \<noteq> None" and "rtg \<le> 0"
      by auto
    then show ?thesis by (simp only: pages_run.simps stop if_False fetched_0) simp
  next
    case True
    then have go: "(0 < rtg \<or> cap = None) = True" by simp
    show ?thesis
    proof (cases "snd p")
      case None
      then show ?thesis by (simp add: go)
    next
      case (Some c)
      with Cons.prems have "pages \<noteq> []" and "snd (last pages) = None"
        by (auto split: if_splits)
      from Cons.IH [OF this, of "rtg - int (length (fst p))"] Some show ?thesis
        by (auto simp: go nth_Cons')
    qed
  qed
qed

lemma pages_run_not_before:
  assumes "j < pages_run cap rtg pages"
  shows "(cap = None \<or> fetched pages j < rtg) \<and> (0 < j \<longrightarrow> snd (pages ! (j - 1)) \<noteq> None)"
  using assms
proof (induction pages arbitrary: rtg j)
  case Nil
  then show ?case by simp
next
  case (Cons p pages)
  from Cons.prems have go: "0 < rtg \<or> cap = None"
    by (rule_tac pages_run_pos [of cap rtg "p # pages"]) simp
  show ?case
  proof (cases j)
    case 0
    with go show ?thesis by auto
  next
    case (Suc j')
    with Cons.prems go obtain c where c: "snd p = Some c"
      and j': "j' < pages_run cap (rtg - int (length (fst p))) pages"
      by (auto split: option.splits if_splits)
    from Cons.IH [OF j'] c Suc show ?thesis
      by (auto simp: nth_Cons')
  qed
qed

lemma num_gets_append: "num_gets (xs @ ys) = num_gets xs + num_gets ys"
  by (simp add: num_gets_def)

lemma num_gets_requests_run:
  "num_gets (requests_run url hs maxp cap rtg ps pages) = pages_run cap rtg pages"
  by (induction pages arbitrary: rtg ps) (auto simp: num_gets_def split: option.splits)

lemma params_run_none: "pages_run cap rtg pages = 0 \<Longrightarrow> params_run maxp cap rtg ps pages = ps"
  by (cases pages) (auto split: if_splits option.splits)

lemma requests_run_none:
  "pages_run cap rtg pages = 0 \<Longrightarrow> requests_run url hs maxp cap rtg ps pages = []"
  by (cases pages) (auto split: if_splits option.splits)

lemma params_run_first:
  assumes "0 < pages_run cap rtg pages"
  shows "map_of (params_run maxp cap rtg ps pages) ''first'' =
           Some (PyInt (min maxp (rtg - fetched pages (pages_run cap rtg pages - 1))))"
  using assms
proof (induction pages arbitrary: rtg ps)
  case Nil
  then show ?case by simp
next
  case (Cons p pages)
  from Cons.prems have "0 < rtg \<or> cap = None"
    by (rule pages_run_pos)
  then have go: "(0 < rtg \<or> cap = None) = True" by simp
  show ?case
  proof (cases "snd p")
    case None
    then show ?thesis by (simp add: go update_conv')
  next
    case (Some c)
    show ?thesis
    proof (cases "pages_run cap (rtg - int (length (fst p))) pages")
      case 0
      with Some show ?thesis
        by (simp add: go params_run_none update_conv')
    next
      case (Suc k')
      then have "0 < pages_run cap (rtg - int (length (fst p))) pages" by simp
      from Cons.IH [OF this] Some Suc show ?thesis
        by (simp add: go algebra_simps)
    qed
  qed
qed

lemma requests_run_last:
  assumes "0 < pages_run cap rtg pages"
  shows "\<exists>P. last (requests_run url hs maxp cap rtg ps pages) = HttpGet url P hs \<and>
             map_of P ''first'' = map_of (params_run maxp cap rtg ps pages) ''first''"
  using assms
proof (induction pages arbitrary: rtg ps)
  case Nil
  then show ?case by simp
next
  case (Cons p pages)
  from Cons.prems have "0 < rtg \<or> cap = None"
    by (rule pages_run_pos)
  then have go: "(0 < rtg \<or> cap = None) = True" by simp
  show ?case
  proof (cases "snd p")
    case None
    then show ?thesis by (simp add: go)
  next
    case (Some c)
    show ?thesis
    proof (cases "pages_run cap (rtg - int (length (fst p))) pages")
      case 0
      with Some show ?thesis
        by (simp add: go params_run_none requests_run_none update_conv')
    next
      case (Suc k')
      then have pos: "0 < pages_run cap (rtg - int (length (fst p))) pages" by simp
      then have "requests_run url hs maxp cap (rtg - int (length (fst p)))
                   (AList.update ''after'' c (AList.update ''first'' (PyInt (min maxp rtg)) ps)) pages \<noteq> []"
        using num_gets_requests_run [of url hs maxp cap "rtg - int (length (fst p))"
            "AList.update ''after'' c (AList.update ''first'' (PyInt (min maxp rtg)) ps)" pages]
        by (auto simp: num_gets_def)
      with Cons.IH [OF pos] Some show ?thesis
        by (simp add: go)
    qed
  qed
qed

lemma params_run_after:
  "map_of (params_run maxp cap rtg ps pages) ''after'' =
     (case last_cursor (take (pages_run cap rtg pages) pages) of
        Some c \<Rightarrow> Some c
      | None \<Rightarrow> map_of ps ''after'')"
proof (induction pages arbitrary: rtg ps)
  case Nil
  then show ?case by simp
next
  case (Cons p pages)
  show ?case
  proof (cases "0 < rtg \<or> cap = None")
    case False
    then have stop: "(0 < rtg \<or> cap = None) = False"
      by simp
    show ?thesis by (simp add: stop)
  next
    case True
    then have go: "(0 < rtg \<or> cap = None) = True" by simp
    show ?thesis
    proof (cases "snd p")
      case None
      then show ?thesis by (simp add: go update_conv')
    next
      case (Some c)
      with Cons.IH [of "rtg - int (length (fst p))"
          "AList.update ''after'' c (AList.update ''first'' (PyInt (min maxp rtg)) ps)"]
      show ?thesis
        by (simp add: go update_conv' split: option.splits)
    qed
  qed
qed

lemma requests_run_first:
  assumes "0 < pages_run cap rtg pages"
  shows "hd (requests_run url hs maxp cap rtg ps pages) =
           HttpGet url (AList.update ''first'' (PyInt (min maxp rtg)) ps) hs"
  using assms by (cases pages) (auto split: if_splits)

lemma pages_run_all:
  assumes "pages \<noteq> []" and "snd (last pages) = None"
    and "\<forall>i. i < length pages - 1 \<longrightarrow> snd (pages ! i) \<noteq> None"
  shows "pages_run None rtg pages = length pages"
proof -
  let ?k = "pages_run None rtg pages"
  from pages_run_stop [OF assms(1,2), of None rtg]
  have k: "0 < ?k" and none: "snd (pages ! (?k - 1)) = None"
    by auto
  have "\<not> ?k - 1 < length pages - 1"
    using assms(3) none by blast
  moreover have "?k \<le> length pages"
    by (rule pages_run_le)
  ultimately show ?thesis
    using k by linarith
qed

text \<open>
  The end-to-end scenario of the specification: \<^verbatim>\<open>get_clips\<close> for broadcaster 123 with
  a cap of 250 against pages of 100, 100 and 50 clips returns the 250 clips after exactly
  three requests.
\<close>

lemma get_clips_three_pages:
  "\<exists>self' w'.
     get_clips (id :: string \<Rightarrow> string) (Some ''123'') None None None None (Some 250) client0
       (world0 (map Inr three_replies) []) =
       Some (Inr (PyList (replicate 100 clip @ replicate 100 clip @ replicate 50 clip)), self', w')
     \<and> length (replicate 100 clip @ replicate 100 clip @ replicate 50 clip) = 250
     \<and> num_gets (trace w') = 3"
proof -
  let ?ps = "[(''broadcaster_id'', PyStr ''123''), (''game_id'', PyNone), (''id'', PyNone),
              (''started_at'', PyNone), (''ended_at'', PyNone)]"
  have "\<exists>self'. paginate ''clips'' 100 (Some 250) ?ps 250 [] client0
                  (world0 (map Inr three_replies) []) =
          Some (Inr ([] @ concat (map fst (take (pages_run (Some 250) 250 three_pages) three_pages))),
                params_run 100 (Some 250) 250 ?ps three_pages, self',
                (world0 (map Inr three_replies) [])
                  \<lparr>get_replies := drop (pages_run (Some 250) 250 three_pages)
                                    (map Inr three_replies) @- silent,
                   trace := trace (world0 (map Inr three_replies) []) @
                     requests_run (BASE_URL @ ''clips'')
                       [(''Client-ID'', Plain ''id''), (''Authorization'', Bearer (PyStr ''tok''))]
                       100 (Some 250) 250 ?ps three_pages\<rparr>)
          \<and> http self' = Some Session
          \<and> headers self' =
              Some [(''Client-ID'', Plain ''id''), (''Authorization'', Bearer (PyStr ''tok''))]"
    by (rule paginate_pages [where rs = three_replies])
       (simp_all add: client0_def world0_def three_replies_def three_pages_def)
  then show ?thesis
    by (auto simp: get_clips_def paginated_request_def returned_def count_given_def len_or_0_def
          opt_str_def opt_strs_def datetime_to_str_def three_pages_def world0_def num_gets_def)
qed

section \<open>Every returning call of the loop\<close>

lemma pages_seen_append: "pages_seen (xs @ ys) = pages_seen xs @ pages_seen ys"
  by (induction xs rule: pages_seen.induct) (simp_all split: option.splits)

lemma last_cursor_append:
  "last_cursor (xs @ ys) = (case last_cursor ys of Some c \<Rightarrow> Some c | None \<Rightarrow> last_cursor xs)"
  by (induction xs) (simp_all split: option.splits)

lemma num_gets_Nil: "num_gets [] = 0"
  by (simp add: num_gets_def)

lemma num_gets_snoc_get: "num_gets (evs @ [HttpGet url ps hs]) = Suc (num_gets evs)"
  by (simp add: num_gets_def)

text \<open>A refresh sends no GET and leaves the answers of the data endpoints alone.\<close>

lemma refresh_keeps_get_replies:
  assumes "refresh_access_token self w = (Inr u, self', w')"
  shows "get_replies w' = get_replies w \<and> (\<exists>evs. trace w' = trace w @ evs \<and> num_gets evs = 0)"
  using assms
  by (auto simp: refresh_access_token_def http_post_def Let_def num_gets_def
      split: option.splits sum.splits prod.splits)

lemma call_refresh_keeps_get_replies:
  assumes "call_refresh_access_token self w = (Inr u, self', w')"
  shows "get_replies w' = get_replies w \<and> (\<exists>evs. trace w' = trace w @ evs \<and> num_gets evs = 0)"
  using assms
  by (auto simp: call_refresh_access_token_def split: option.splits
      dest: refresh_keeps_get_replies)

text \<open>
  A call of \<^verbatim>\<open>_get_request\<close> that returns a body has either read a 200 at once, or read a
  401, refreshed the token, and called itself.
\<close>

lemma get_request_returns_cases:
  assumes "get_request endpoint ps self w = (Inr body, self', w')"
  shows "(\<exists>hs r. shd (get_replies w) = Inr r \<and> status_code r = 200 \<and> json r = Some body
            \<and> w' = w\<lparr>get_replies := stl (get_replies w),
                       trace := trace w @ [HttpGet (BASE_URL @ endpoint) ps hs]\<rparr>)
       \<or> (\<exists>hs r self1 self2 w2 u. shd (get_replies w) = Inr r \<and> status_code r = 401
            \<and> \<not> access_token_refreshed self
            \<and> call_refresh_access_token self1
                 (w\<lparr>get_replies := stl (get_replies w),
                    trace := trace w @ [HttpGet (BASE_URL @ endpoint) ps hs]\<rparr>) = (Inr u, self2, w2)
            \<and> get_request endpoint ps self2 w2 = (Inr body, self', w'))"
proof -
  from assms have
    "(case http self of
        None \<Rightarrow> (Inl (AttributeError ''http''), self, w)
      | Some s \<Rightarrow>
          (case headers self of
             None \<Rightarrow> (Inl (AttributeError ''headers''), self, w)
           | Some hs \<Rightarrow>
               (case http_get (BASE_URL @ endpoint) ps hs w of
                  (Inl e, w1) \<Rightarrow> (Inl e, self, w1)
                | (Inr response, w1) \<Rightarrow>
                    (let self1 = self\<lparr>ratelimit_remaining := headers_get response ''Ratelimit-Remaining'',
                                       ratelimit_reset_timestamp := headers_get response ''Ratelimit-Reset''\<rparr>
                     in if status_code response = 200 then
                          (let self2 = self1\<lparr>refresh_access_token_attr := Some (PyBool False)\<rparr>
                           in case json response of
                                None \<Rightarrow> (Inl JSONDecodeError, self2, w1)
                              | Some body \<Rightarrow> (Inr body, self2, w1))
                        else if status_code response = 429 then
                          (case wait_for_rate_limit_reset self1 w1 of
                             Inl e \<Rightarrow> (Inl e, self1, w1)
                           | Inr w2 \<Rightarrow> get_request endpoint ps self1 w2)
                        else if status_code response = 401 then
                          (if access_token_refreshed self1 then (Inl (PyException []), self1, w1)
                           else
                             (case call_refresh_access_token self1 w1 of
                                (Inl e, self2, w2) \<Rightarrow> (Inl e, self2, w2)
                              | (Inr u, self2, w2) \<Rightarrow> get_request endpoint ps self2 w2))
                        else (Inl (PyException []), self1, w1))))) = (Inr body, self', w')"
    by (simp only: get_request.simps [of endpoint ps self w])
  then show ?thesis
    apply (simp add: http_get_def Let_def wait_for_rate_limit_reset_def header_ne_zero
        split: option.splits sum.splits prod.splits if_splits)
      apply blast+
    done
qed

text \<open>
  So it has sent one or two GETs, the last of them with the parameters it was given, and
  the only page among the answers it consumed is the 200 whose body it returns.
\<close>

lemma get_request_returns:
  assumes "get_request endpoint ps self w = (Inr body, self', w')"
  shows "\<exists>evs hs r. trace w' = trace w @ evs @ [HttpGet (BASE_URL @ endpoint) ps hs]
           \<and> get_replies w' = sdrop (Suc (num_gets evs)) (get_replies w)
           \<and> status_code r = 200 \<and> json r = Some body
           \<and> pages_seen (stake (Suc (num_gets evs)) (get_replies w)) = pages_seen [Inr r]"
proof -
  note num_gets_Nil [simp] num_gets_snoc_get [simp]
  let ?url = "BASE_URL @ endpoint"
  from get_request_returns_cases [OF assms] show ?thesis
  proof (elim disjE exE conjE)
    fix hs r
    assume r: "shd (get_replies w) = Inr r" "status_code r = 200" "json r = Some body"
      and w': "w' = w\<lparr>get_replies := stl (get_replies w), trace := trace w @ [HttpGet ?url ps hs]\<rparr>"
    have "trace w' = trace w @ [] @ [HttpGet ?url ps hs]"
      and "get_replies w' = sdrop (Suc (num_gets [])) (get_replies w)"
      and "pages_seen (stake (Suc (num_gets [])) (get_replies w)) = pages_seen [Inr r]"
      using r(1) by (simp_all add: w')
    with r(2,3) show ?thesis
      by blast
  next
    fix hs r self1 self2 w2 u
    let ?w1 = "w\<lparr>get_replies := stl (get_replies w), trace := trace w @ [HttpGet ?url ps hs]\<rparr>"
    assume r: "shd (get_replies w) = Inr r" "status_code r = 401"
      and refresh: "call_refresh_access_token self1 ?w1 = (Inr u, self2, w2)"
      and again: "get_request endpoint ps self2 w2 = (Inr body, self', w')"
    from call_refresh_sets_flag [OF refresh] have flag: "access_token_refreshed self2" .
    from call_refresh_keeps_get_replies [OF refresh] obtain evs2 where
      g2: "get_replies w2 = stl (get_replies w)"
      and t2: "trace w2 = trace w @ [HttpGet ?url ps hs] @ evs2" and n2: "num_gets evs2 = 0"
      by auto
    from get_request_returns_cases [OF again] flag obtain hs2 r2 where
      r2: "shd (get_replies w2) = Inr r2" "status_code r2 = 200" "json r2 = Some body"
      and w': "w' = w2\<lparr>get_replies := stl (get_replies w2),
                         trace := trace w2 @ [HttpGet ?url ps hs2]\<rparr>"
      by blast
    let ?evs = "HttpGet ?url ps hs # evs2"
    have n: "num_gets ?evs = 1"
      using n2 by (simp add: num_gets_def)
    have none: "page_of r = None"
      using r(2) by (simp add: page_of_def)
    have "stake (Suc (Suc 0)) (get_replies w) = [Inr r, Inr r2]"
      using r(1) r2(1) g2 by simp
    then have seen: "pages_seen (stake (Suc (num_gets ?evs)) (get_replies w)) = pages_seen [Inr r2]"
      using none by (simp add: n)
    have "trace w' = trace w @ ?evs @ [HttpGet ?url ps hs2]"
      by (simp add: w' t2)
    moreover have "get_replies w' = sdrop (Suc (num_gets ?evs)) (get_replies w)"
      by (simp add: w' g2 n)
    ultimately show ?thesis
      using r2(2,3) seen by blast
  qed
qed

text \<open>
  The loop, whenever it returns a list, whatever the server sent: if the body ran at all,
  the last event is a GET whose \<^verbatim>\<open>first\<close> is the one left in \<^verbatim>\<open>params\<close>, and \<^verbatim>\<open>after\<close> is
  the last cursor among the pages consumed, or what it was when no page had one; if the
  body did not run, nothing has changed.
\<close>

lemma paginate_returns:
  assumes "paginate endpoint maxp cap ps rtg acc self w = Some y"
  shows "\<forall>res ps' self' w'. y = (Inr res, ps', self', w') \<longrightarrow>
           (if 0 < rtg \<or> cap = None then
              (\<exists>evs P hs n. trace w' = trace w @ evs \<and> evs \<noteq> []
                 \<and> last evs = HttpGet (BASE_URL @ endpoint) P hs
                 \<and> map_of P ''first'' = Some (PyInt n) \<and> map_of ps' ''first'' = Some (PyInt n)
                 \<and> get_replies w' = sdrop (num_gets evs) (get_replies w)
                 \<and> map_of ps' ''after'' =
                     (case last_cursor (pages_seen (stake (num_gets evs) (get_replies w))) of
                        Some c \<Rightarrow> Some c | None \<Rightarrow> map_of ps ''after''))
            else res = acc \<and> ps' = ps \<and> self' = self \<and> w' = w)"
  using assms
proof (induct rule: paginate.raw_induct [rotated 1, consumes 1, case_names step])
  case (step f endpoint maxp cap ps rtg acc self w y)
  note IH = step(1) and eq = step(2)
  note num_gets_Nil [simp] num_gets_snoc_get [simp]
  let ?url = "BASE_URL @ endpoint"
  show ?case
  proof (intro allI impI)
    fix res ps' self' w'
    assume y: "y = (Inr res, ps', self', w')"
    show "if 0 < rtg \<or> cap = None then
            (\<exists>evs P hs n. trace w' = trace w @ evs \<and> evs \<noteq> []
               \<and> last evs = HttpGet ?url P hs
               \<and> map_of P ''first'' = Some (PyInt n) \<and> map_of ps' ''first'' = Some (PyInt n)
               \<and> get_replies w' = sdrop (num_gets evs) (get_replies w)
               \<and> map_of ps' ''after'' =
                   (case last_cursor (pages_seen (stake (num_gets evs) (get_replies w))) of
                      Some c \<Rightarrow> Some c | None \<Rightarrow> map_of ps ''after''))
          else res = acc \<and> ps' = ps \<and> self' = self \<and> w' = w"
    proof (cases "0 < rtg \<or> cap = None")
      case False
      then have stop: "(0 < rtg \<or> cap = None) = False"
        by simp
      from eq y show ?thesis
        by (simp add: stop)
    next
      case True
      then have go: "(0 < rtg \<or> cap = None) = True"
        by simp
      let ?ps1 = "AList.update ''first'' (PyInt (min maxp rtg)) ps"
      obtain r1 self1 w1 where g1: "get_request endpoint ?ps1 self w = (r1, self1, w1)"
        by (cases "get_request endpoint ?ps1 self w") auto
      from eq y obtain body d items where r1: "r1 = Inr body"
        and d: "subscript body ''data'' = Inr d" and items: "py_iter d = Inr items"
        and rest: "(case cursor_of body of
                      None \<Rightarrow> Some (Inr (acc @ items), ?ps1, self1, w1)
                    | Some cursor \<Rightarrow>
                        f endpoint maxp cap (AList.update ''after'' cursor ?ps1)
                          (rtg - int (length items)) (acc @ items) self1 w1) = Some y"
        by (simp add: go g1 Let_def split: sum.splits)
      from g1 r1 have "get_request endpoint ?ps1 self w = (Inr body, self1, w1)"
        by simp
      from get_request_returns [OF this] obtain evs hs r where
        t1: "trace w1 = trace w @ evs @ [HttpGet ?url ?ps1 hs]"
        and s1: "get_replies w1 = sdrop (Suc (num_gets evs)) (get_replies w)"
        and r: "status_code r = 200" "json r = Some body"
        and seen1: "pages_seen (stake (Suc (num_gets evs)) (get_replies w)) = pages_seen [Inr r]"
        by blast
      let ?evs1 = "evs @ [HttpGet ?url ?ps1 hs]"
      have n1: "num_gets ?evs1 = Suc (num_gets evs)"
        by simp
      have page: "page_of r = Some (items, cursor_of body)"
        using r d items by (simp add: page_of_def)
      have seen: "pages_seen (stake (num_gets ?evs1) (get_replies w)) = [(items, cursor_of body)]"
        using seen1 page by (simp only: n1) simp
      then have seen':
        "pages_seen (shd (get_replies w) # stake (num_gets evs) (stl (get_replies w))) =
           [(items, cursor_of body)]"
        by simp
      have first1: "map_of ?ps1 ''first'' = Some (PyInt (min maxp rtg))"
        and after1: "map_of ?ps1 ''after'' = map_of ps ''after''"
        by (simp_all add: update_conv')
      show ?thesis
      proof (cases "cursor_of body")
        case None
        with rest y have fin: "ps' = ?ps1" "w' = w1"
          by simp_all
        have "trace w' = trace w @ ?evs1 \<and> ?evs1 \<noteq> []
              \<and> last ?evs1 = HttpGet ?url ?ps1 hs
              \<and> map_of ?ps1 ''first'' = Some (PyInt (min maxp rtg))
              \<and> map_of ps' ''first'' = Some (PyInt (min maxp rtg))
              \<and> get_replies w' = sdrop (num_gets ?evs1) (get_replies w)
              \<and> map_of ps' ''after'' =
                  (case last_cursor (pages_seen (stake (num_gets ?evs1) (get_replies w))) of
                     Some c \<Rightarrow> Some c | None \<Rightarrow> map_of ps ''after'')"
          using t1 s1 first1 after1 None by (simp add: fin seen')
        then have "\<exists>evs P hs n. trace w' = trace w @ evs \<and> evs \<noteq> []
               \<and> last evs = HttpGet ?url P hs
               \<and> map_of P ''first'' = Some (PyInt n) \<and> map_of ps' ''first'' = Some (PyInt n)
               \<and> get_replies w' = sdrop (num_gets evs) (get_replies w)
               \<and> map_of ps' ''after'' =
                   (case last_cursor (pages_seen (stake (num_gets evs) (get_replies w))) of
                      Some c \<Rightarrow> Some c | None \<Rightarrow> map_of ps ''after'')"
          by blast
        then show ?thesis
          by (simp add: go)
      next
        case (Some c)
        let ?ps2 = "AList.update ''after'' c ?ps1"
        let ?rtg2 = "rtg - int (length items)"
        have first2: "map_of ?ps2 ''first'' = Some (PyInt (min maxp rtg))"
          and after2: "map_of ?ps2 ''after'' = Some c"
          by (simp_all add: update_conv')
        from rest Some have "f endpoint maxp cap ?ps2 ?rtg2 (acc @ items) self1 w1 = Some y"
          by simp
        from IH [OF this] y have ih:
          "if 0 < ?rtg2 \<or> cap = None then
             (\<exists>evs P hs n. trace w' = trace w1 @ evs \<and> evs \<noteq> []
                \<and> last evs = HttpGet ?url P hs
                \<and> map_of P ''first'' = Some (PyInt n) \<and> map_of ps' ''first'' = Some (PyInt n)
                \<and> get_replies w' = sdrop (num_gets evs) (get_replies w1)
                \<and> map_of ps' ''after'' =
                    (case last_cursor (pages_seen (stake (num_gets evs) (get_replies w1))) of
                       Some c \<Rightarrow> Some c | None \<Rightarrow> map_of ?ps2 ''after''))
           else res = acc @ items \<and> ps' = ?ps2 \<and> self' = self1 \<and> w' = w1"
          by blast
        have "\<exists>evs P hs n. trace w' = trace w @ evs \<and> evs \<noteq> []
               \<and> last evs = HttpGet ?url P hs
               \<and> map_of P ''first'' = Some (PyInt n) \<and> map_of ps' ''first'' = Some (PyInt n)
               \<and> get_replies w' = sdrop (num_gets evs) (get_replies w)
               \<and> map_of ps' ''after'' =
                   (case last_cursor (pages_seen (stake (num_gets evs) (get_replies w))) of
                      Some c \<Rightarrow> Some c | None \<Rightarrow> map_of ps ''after'')"
        proof (cases "0 < ?rtg2 \<or> cap = None")
          case False
          with ih have fin: "ps' = ?ps2" "w' = w1"
            by simp_all
          have "trace w' = trace w @ ?evs1 \<and> ?evs1 \<noteq> []
                \<and> last ?evs1 = HttpGet ?url ?ps1 hs
                \<and> map_of ?ps1 ''first'' = Some (PyInt (min maxp rtg))
                \<and> map_of ps' ''first'' = Some (PyInt (min maxp rtg))
                \<and> get_replies w' = sdrop (num_gets ?evs1) (get_replies w)
                \<and> map_of ps' ''after'' =
                    (case last_cursor (pages_seen (stake (num_gets ?evs1) (get_replies w))) of
                       Some c \<Rightarrow> Some c | None \<Rightarrow> map_of ps ''after'')"
            using t1 s1 first1 first2 after2 Some by (simp add: fin seen')
          then show ?thesis
            by blast
        next
          case True
          with ih obtain evs2 P hs2 n where
            t2: "trace w' = trace w1 @ evs2" and ne: "evs2 \<noteq> []"
            and l2: "last evs2 = HttpGet ?url P hs2"
            and f2: "map_of P ''first'' = Some (PyInt n)" "map_of ps' ''first'' = Some (PyInt n)"
            and s2: "get_replies w' = sdrop (num_gets evs2) (get_replies w1)"
            and a2: "map_of ps' ''after'' =
                      (case last_cursor (pages_seen (stake (num_gets evs2) (get_replies w1))) of
                         Some c \<Rightarrow> Some c | None \<Rightarrow> map_of ?ps2 ''after'')"
            by auto
          let ?all = "?evs1 @ evs2"
          have n: "num_gets ?all = num_gets ?evs1 + num_gets evs2"
            by (rule num_gets_append)
          have w1: "get_replies w1 = sdrop (num_gets ?evs1) (get_replies w)"
            using s1 by simp
          have st: "stake (num_gets ?all) (get_replies w) =
                      stake (num_gets ?evs1) (get_replies w) @ stake (num_gets evs2) (get_replies w1)"
            by (simp only: n w1 stake_add)
          have lc: "last_cursor (pages_seen (stake (num_gets ?all) (get_replies w))) =
                      (case last_cursor (pages_seen (stake (num_gets evs2) (get_replies w1))) of
                         Some c' \<Rightarrow> Some c' | None \<Rightarrow> Some c)"
            by (simp only: st pages_seen_append last_cursor_append seen) (simp add: Some split: option.splits)
          have "trace w' = trace w @ ?all \<and> ?all \<noteq> []
                \<and> last ?all = HttpGet ?url P hs2
                \<and> map_of P ''first'' = Some (PyInt n)
                \<and> map_of ps' ''first'' = Some (PyInt n)
                \<and> get_replies w' = sdrop (num_gets ?all) (get_replies w)
                \<and> map_of ps' ''after'' =
                    (case last_cursor (pages_seen (stake (num_gets ?all) (get_replies w))) of
                       Some c \<Rightarrow> Some c | None \<Rightarrow> map_of ps ''after'')"
          proof (intro conjI)
            show "trace w' = trace w @ ?all"
              by (simp add: t2 t1)
            show "?all \<noteq> []"
              by simp
            show "last ?all = HttpGet ?url P hs2"
              using ne l2 by simp
            show "map_of P ''first'' = Some (PyInt n)" and "map_of ps' ''first'' = Some (PyInt n)"
              by (rule f2)+
            show "get_replies w' = sdrop (num_gets ?all) (get_replies w)"
              by (simp only: s2 w1 n sdrop_add)
            show "map_of ps' ''after'' =
                    (case last_cursor (pages_seen (stake (num_gets ?all) (get_replies w))) of
                       Some c \<Rightarrow> Some c | None \<Rightarrow> map_of ps ''after'')"
              by (simp only: lc a2 after2) (simp split: option.splits)
          qed
          then show ?thesis
            by blast
        qed
        then show ?thesis
          by (simp add: go)
      qed
    qed
  qed
qed

lemma nonpositive_cap_sends_nothing:
  "c \<le> 0 \<Longrightarrow> paginated_request endpoint ps maxp (Some c) self w = Some (Inr [], ps, self, w)"
  unfolding paginated_request_def
  by (subst paginate.simps) simp

lemma paginated_request_returns:
  assumes "paginated_request endpoint ps maxp cap self w = Some (Inr res, ps', self', w')"
    and "case cap of None \<Rightarrow> True | Some c \<Rightarrow> 0 < c"
  shows "\<exists>evs P hs n. trace w' = trace w @ evs \<and> evs \<noteq> []
           \<and> last evs = HttpGet (BASE_URL @ endpoint) P hs
           \<and> map_of P ''first'' = Some (PyInt n) \<and> map_of ps' ''first'' = Some (PyInt n)
           \<and> get_replies w' = sdrop (num_gets evs) (get_replies w)
           \<and> map_of ps' ''after'' =
               (case last_cursor (pages_seen (stake (num_gets evs) (get_replies w))) of
                  Some c \<Rightarrow> Some c | None \<Rightarrow> map_of ps ''after'')"
proof -
  let ?rtg = "case cap of None \<Rightarrow> maxp | Some c \<Rightarrow> c"
  from assms(2) have go: "(0 < ?rtg \<or> cap = None) = True"
    by (cases cap) simp_all
  from assms(1) have "paginate endpoint maxp cap ps ?rtg [] self w = Some (Inr res, ps', self', w')"
    by (simp add: paginated_request_def)
  from paginate_returns [OF this] show ?thesis
    by (simp only: go if_True)
qed

lemma paginated_request_pages_return:
  assumes "http self = Some s" and "headers self = Some hs"
    and "get_replies w = map Inr rs @- rest"
    and "map page_of rs = map Some pages"
    and "pages \<noteq> []" and "snd (last pages) = None"
  shows "\<exists>res ps' self' w'.
           paginated_request endpoint ps maxp cap self w = Some (Inr res, ps', self', w')"
proof -
  from paginate_pages [OF assms(4,5,6,1,2,3),
      of endpoint maxp cap ps "case cap of None \<Rightarrow> maxp | Some c \<Rightarrow> c" "[]"]
  show ?thesis
    by (auto simp: paginated_request_def)
qed

text \<open>
  A request for five clips whose first GET is rejected with a 401: the token is refreshed,
  the request repeated, and the call returns both clips after three GETs.
\<close>

lemma retry_run:
  "paginated_request ''clips'' [(''broadcaster_id'', PyStr ''123'')] 100 (Some 5) client0 retry_world
   = Some (Inr [clip, clip],
           [(''broadcaster_id'', PyStr ''123''), (''first'', PyInt 4), (''after'', PyStr ''A'')],
           retried_client, retried_world)"
  unfolding paginated_request_def retry_world_def retried_client_def retried_world_def
  apply (subst paginate.simps)
  apply (simp add: get_request.simps run_defs clips_page_def cursor_of_def Let_def)
  apply (subst paginate.simps)
  apply (simp add: get_request.simps run_defs clips_page_def cursor_of_def Let_def)
  done

section \<open>Parameter checks of the public methods\<close>

lemma over_100_is_given: "100 < len_or_0 v \<Longrightarrow> v \<noteq> None"
  by (cases v) (simp_all add: len_or_0_def)

lemma get_clips_invalid:
  assumes "100 < len_or_0 clip_id \<or>
           count_given [clip_id \<noteq> None, broadcaster_id \<noteq> None, game_id \<noteq> None] \<noteq> 1"
  shows "\<exists>msg. get_clips isoformat broadcaster_id game_id clip_id started_at ended_at cap self w
           = Some (Inl (ValueError msg), self, w)"
proof (cases "100 < len_or_0 clip_id")
  case True
  then have "clip_id \<noteq> None \<and> len_or_0 clip_id > 100"
    by (simp add: over_100_is_given)
  then show ?thesis
    unfolding get_clips_def by (simp split del: if_split)
next
  case False
  with assms have "count_given [clip_id \<noteq> None, broadcaster_id \<noteq> None, game_id \<noteq> None] \<noteq> 1"
    by blast
  with False show ?thesis
    unfolding get_clips_def by (simp split del: if_split)
qed


lemma get_videos_invalid:
  assumes "100 < len_or_0 video_ids \<or>
           count_given [video_ids \<noteq> None, user_id \<noteq> None, game_id \<noteq> None] \<noteq> 1"
  shows "\<exists>msg. get_videos video_ids user_id game_id language period sort_arg video_type cap self w
           = Some (Inl (ValueError msg), self, w)"
proof (cases "100 < len_or_0 video_ids")
  case True
  then have "video_ids \<noteq> None \<and> len_or_0 video_ids > 100"
    by (simp add: over_100_is_given)
  then show ?thesis
    unfolding get_videos_def by (simp split del: if_split)
next
  case False
  with assms have "count_given [video_ids \<noteq> None, user_id \<noteq> None, game_id \<noteq> None] \<noteq> 1"
    by blast
  with False show ?thesis
    unfolding get_videos_def by (simp split del: if_split)
qed

lemma get_games_invalid:
  assumes "(game_ids = None \<and> names = None \<and> igdb_ids = None) \<or>
           100 < len_or_0 game_ids + len_or_0 names + len_or_0 igdb_ids"
  shows "\<exists>msg. get_games game_ids names igdb_ids self w = (Inl (ValueError msg), self, w)"
proof (cases "game_ids = None \<and> names = None \<and> igdb_ids = None")
  case True
  then show ?thesis
    unfolding get_games_def by (simp split del: if_split)
next
  case False
  with assms have "100 < len_or_0 game_ids + len_or_0 names + len_or_0 igdb_ids"
    by blast
  with False show ?thesis
    unfolding get_games_def by (simp only: if_True if_False) blast
qed

lemma get_users_invalid:
  assumes "(user_ids = None \<and> logins = None) \<or> 100 < len_or_0 user_ids + len_or_0 logins"
  shows "\<exists>msg. get_users user_ids logins self w = (Inl (ValueError msg), self, w)"
proof (cases "user_ids = None \<and> logins = None")
  case True
  then show ?thesis
    unfolding get_users_def by (simp split del: if_split)
next
  case False
  with assms have "100 < len_or_0 user_ids + len_or_0 logins"
    by blast
  with False show ?thesis
    unfolding get_users_def by (simp only: if_True if_False) blast
qed

lemma get_users_follows_invalid:
  assumes "from_id = None \<and> to_id = None"
  shows "\<exists>msg. get_users_follows from_id to_id cap self w = Some (Inl (ValueError msg), self, w)"
  using assms unfolding get_users_follows_def by (simp split del: if_split)

section \<open>The claims\<close>

text \<open>
  C1. Claim: on the first 401 of a logical call the executor refreshes the credential
  and retries, however the client was constructed. The code at two logical calls of
  \<open>client0\<close>: the first is answered 200; the second is answered 401, its first. The
  second call raises \<^verbatim>\<open>TypeError\<close>: the token endpoint's answer stays unread and
  the trace holds the two GETs only, no POST and no retry.
\<close>

theorem first_unauthorized_after_success_is_not_refreshed:
  "get_request ''users'' [] client0
     (world0 [Inr (reply 200 [] (Some (PyDict [(''data'', PyList [])]))),
              Inr (reply 401 [] None)]
             [Inr (reply 200 [] (Some (PyDict [(''access_token'', PyStr ''new'')])))])
   = (Inr (PyDict [(''data'', PyList [])]),
      client0\<lparr>ratelimit_reset_timestamp := PyNone, ratelimit_remaining := PyNone,
              refresh_access_token_attr := Some (PyBool False)\<rparr>,
      \<lparr>get_replies = Inr (reply 401 [] None) ## silent,
       post_replies = Inr (reply 200 [] (Some (PyDict [(''access_token'', PyStr ''new'')]))) ## silent,
       now = 0,
       trace = [HttpGet ''https://api.twitch.tv/helix/users'' []
                  [(''Client-ID'', Plain ''id''), (''Authorization'', Bearer (PyStr ''tok''))]]\<rparr>)
   \<and>
   get_request ''users'' []
     (client0\<lparr>ratelimit_reset_timestamp := PyNone, ratelimit_remaining := PyNone,
              refresh_access_token_attr := Some (PyBool False)\<rparr>)
     \<lparr>get_replies = Inr (reply 401 [] None) ## silent,
      post_replies = Inr (reply 200 [] (Some (PyDict [(''access_token'', PyStr ''new'')]))) ## silent,
      now = 0,
      trace = [HttpGet ''https://api.twitch.tv/helix/users'' []
                 [(''Client-ID'', Plain ''id''), (''Authorization'', Bearer (PyStr ''tok''))]]\<rparr>
   = (Inl (TypeError ''object is not callable''),
      client0\<lparr>ratelimit_reset_timestamp := PyNone, ratelimit_remaining := PyNone,
              refresh_access_token_attr := Some (PyBool False)\<rparr>,
      \<lparr>get_replies = silent,
       post_replies = Inr (reply 200 [] (Some (PyDict [(''access_token'', PyStr ''new'')]))) ## silent,
       now = 0,
       trace = [HttpGet ''https://api.twitch.tv/helix/users'' []
                  [(''Client-ID'', Plain ''id''), (''Authorization'', Bearer (PyStr ''tok''))],
                HttpGet ''https://api.twitch.tv/helix/users'' []
                  [(''Client-ID'', Plain ''id''), (''Authorization'', Bearer (PyStr ''tok''))]]\<rparr>)"
  by (simp add: get_request.simps run_defs)

text \<open>
  C2. Claim: a 429 response whose \<^verbatim>\<open>Ratelimit-Remaining\<close> header was \<^verbatim>\<open>"0"\<close> makes the
  executor wait once and retry the same call. The code at such a response: the client
  of \<open>client0\<close> gets a 429 with \<^verbatim>\<open>Ratelimit-Remaining: 0\<close> and
  \<^verbatim>\<open>Ratelimit-Reset: 1700000000\<close>, and a 200 is ready for the retry. The header value
  is the string \<^verbatim>\<open>"0"\<close>, which differs from the integer 0, so the call raises; the
  trace holds the one GET, no sleep and no second GET, and the 200 is never fetched.
\<close>

theorem throttled_request_raises:
  "get_request ''users'' [] client0
     (world0 [Inr (reply 429 [(''Ratelimit-Remaining'', ''0''),
                              (''Ratelimit-Reset'', ''1700000000'')] None),
              Inr (reply 200 [] (Some (PyDict [(''data'', PyList [])])))] [])
   = (Inl (PyException ''Request returned 429 but rate limit is not 0...?''),
      client0\<lparr>ratelimit_reset_timestamp := PyStr ''1700000000'',
              ratelimit_remaining := PyStr ''0''\<rparr>,
      \<lparr>get_replies = Inr (reply 200 [] (Some (PyDict [(''data'', PyList [])]))) ## silent,
       post_replies = silent, now = 0,
       trace = [HttpGet ''https://api.twitch.tv/helix/users'' []
                  [(''Client-ID'', Plain ''id''), (''Authorization'', Bearer (PyStr ''tok''))]]\<rparr>)"
  by (simp add: get_request.simps run_defs)

text \<open>
  C3. Claim: when the client-credentials exchange returns a non-success status, the
  refresh fails with an authorization error and installs nothing. The code at a 400
  answer whose body carries an \<^verbatim>\<open>access_token\<close>: the refresh returns normally, the
  token is installed in \<^verbatim>\<open>access_token\<close> and in the \<^verbatim>\<open>Authorization\<close> header, and
  the flag is set.
\<close>

theorem refresh_installs_token_of_rejected_exchange:
  "refresh_access_token client0
     (world0 [] [Inr (reply 400 [] (Some (PyDict [(''access_token'', PyStr ''stale'')])))])
   = (Inr (),
      client0\<lparr>access_token_refreshed := True,
              access_token := Some (PyStr ''stale''),
              headers := Some [(''Client-ID'', Plain ''id''),
                               (''Authorization'', Bearer (PyStr ''stale''))]\<rparr>,
      \<lparr>get_replies = silent, post_replies = silent, now = 0,
       trace = [HttpPost ''https://id.twitch.tv/oauth2/token''
                  [(''client_id'', ''id''), (''client_secret'', ''secret''),
                   (''grant_type'', ''client_credentials'')]]\<rparr>)"
  by (simp add: run_defs)

text \<open>
  With the body Twitch sends for a rejected exchange the refresh does fail, but on the
  missing key of the body it went on to read, not on the status.
\<close>

lemma refresh_rejected_exchange_key_error:
  "fst (refresh_access_token client0
     (world0 [] [Inr (reply 403 [] (Some (PyDict [(''status'', PyInt 403),
                                                  (''message'', PyStr ''invalid client secret'')])))]))
   = Inl (KeyError ''access_token'')"
  by (simp add: run_defs)

text \<open>
  C4. Claim: a request that receives a 200 records the rate-limit headers, resets the
  "already refreshed" guard and returns the parsed body, and changes no other attribute.
  The code at one logical call of \<open>client0\<close>: a 401, a successful refresh, then a 200.
  The headers are recorded and the body is returned, but the guard
  \<^verbatim>\<open>_access_token_refreshed\<close> is still \<^verbatim>\<open>True\<close> afterwards, and the attribute
  \<^verbatim>\<open>_refresh_access_token\<close> of the instance is now \<^verbatim>\<open>False\<close>.
\<close>

theorem success_keeps_refreshed_flag:
  "get_request ''users'' [] client0
     (world0 [Inr (reply 401 [] None),
              Inr (reply 200 [] (Some (PyDict [(''data'', PyList [])])))]
             [Inr (reply 200 [] (Some (PyDict [(''access_token'', PyStr ''new'')])))])
   = (Inr (PyDict [(''data'', PyList [])]),
      client0\<lparr>access_token_refreshed := True,
              access_token := Some (PyStr ''new''),
              headers := Some [(''Client-ID'', Plain ''id''),
                               (''Authorization'', Bearer (PyStr ''new''))],
              ratelimit_reset_timestamp := PyNone, ratelimit_remaining := PyNone,
              refresh_access_token_attr := Some (PyBool False)\<rparr>,
      \<lparr>get_replies = silent, post_replies = silent, now = 0,
       trace = [HttpGet ''https://api.twitch.tv/helix/users'' []
                  [(''Client-ID'', Plain ''id''), (''Authorization'', Bearer (PyStr ''tok''))],
                HttpPost ''https://id.twitch.tv/oauth2/token''
                  [(''client_id'', ''id''), (''client_secret'', ''secret''),
                   (''grant_type'', ''client_credentials'')],
                HttpGet ''https://api.twitch.tv/helix/users'' []
                  [(''Client-ID'', Plain ''id''), (''Authorization'', Bearer (PyStr ''new''))]]\<rparr>)"
  by (simp add: get_request.simps run_defs)

text \<open>
  C5. For every paginated request with a cap, against a server whose pages end with one
  that carries no cursor (in particular when every page but the last carries one): the
  loop returns the records of the first \<open>k\<close> pages, their number is the sum of the
  record counts of those pages, exactly \<open>k\<close> requests are sent, and \<open>k\<close> is where the
  loop first may stop: after \<open>k\<close> pages the accumulated count has reached the cap or
  the page just read has no cursor, and after fewer pages neither is the case.
\<close>

theorem capped_pagination_stops_at_cap_or_missing_cursor:
  assumes "http self = Some s" and "headers self = Some hs"
    and "get_replies w = map Inr rs @- rest"
    and "map page_of rs = map Some pages"
    and "pages \<noteq> []" and "snd (last pages) = None"
  shows "\<exists>k ps' self' w'.
           paginated_request endpoint ps maxp (Some cap) self w =
             Some (Inr (concat (map fst (take k pages))), ps', self', w')
           \<and> int (length (concat (map fst (take k pages)))) = fetched pages k
           \<and> num_gets (trace w') = num_gets (trace w) + k
           \<and> k \<le> length pages
           \<and> (cap \<le> fetched pages k \<or> (0 < k \<and> snd (pages ! (k - 1)) = None))
           \<and> (\<forall>j<k. fetched pages j < cap \<and> (0 < j \<longrightarrow> snd (pages ! (j - 1)) \<noteq> None))"
proof -
  let ?k = "pages_run (Some cap) cap pages"
  from paginate_pages [OF assms(4,5,6,1,2,3), of endpoint maxp "Some cap" ps cap "[]"]
  obtain self' where
    run: "paginated_request endpoint ps maxp (Some cap) self w =
            Some (Inr (concat (map fst (take ?k pages))),
                  params_run maxp (Some cap) cap ps pages, self',
                  w\<lparr>get_replies := drop ?k (map Inr rs) @- rest,
                    trace := trace w @
                      requests_run (BASE_URL @ endpoint) hs maxp (Some cap) cap ps pages\<rparr>)"
    by (auto simp: paginated_request_def)
  have count: "num_gets (trace w @ requests_run (BASE_URL @ endpoint) hs maxp (Some cap) cap ps pages)
                 = num_gets (trace w) + ?k"
    by (simp add: num_gets_append num_gets_requests_run)
  have stop: "cap \<le> fetched pages ?k \<or> (0 < ?k \<and> snd (pages ! (?k - 1)) = None)"
    using pages_run_stop [OF assms(5,6), of "Some cap" cap] by simp
  have before: "\<forall>j<?k. fetched pages j < cap \<and> (0 < j \<longrightarrow> snd (pages ! (j - 1)) \<noteq> None)"
    using pages_run_not_before [of _ "Some cap" cap pages] by simp
  let ?w' = "w\<lparr>get_replies := drop ?k (map Inr rs) @- rest,
                trace := trace w @
                  requests_run (BASE_URL @ endpoint) hs maxp (Some cap) cap ps pages\<rparr>"
  have "paginated_request endpoint ps maxp (Some cap) self w =
          Some (Inr (concat (map fst (take ?k pages))),
                params_run maxp (Some cap) cap ps pages, self', ?w')
        \<and> int (length (concat (map fst (take ?k pages)))) = fetched pages ?k
        \<and> num_gets (trace ?w') = num_gets (trace w) + ?k
        \<and> ?k \<le> length pages
        \<and> (cap \<le> fetched pages ?k \<or> (0 < ?k \<and> snd (pages ! (?k - 1)) = None))
        \<and> (\<forall>j<?k. fetched pages j < cap \<and> (0 < j \<longrightarrow> snd (pages ! (j - 1)) \<noteq> None))"
    using run count stop before
    by (simp add: length_concat_fetched pages_run_le)
  then show ?thesis
    by blast
qed

text \<open>C5 at the pages of 100, 100 and 50 clips with a cap of 250.\<close>

theorem capped_pagination_stops_at_cap_or_missing_cursor_witness:
  "\<exists>k ps' self' w'.
     paginated_request ''clips'' [(''broadcaster_id'', PyStr ''123'')] 100 (Some 250) client0
       (world0 (map Inr three_replies) []) =
       Some (Inr (concat (map fst (take k three_pages))), ps', self', w')
     \<and> int (length (concat (map fst (take k three_pages)))) = fetched three_pages k
     \<and> num_gets (trace w') = num_gets (trace (world0 (map Inr three_replies) [])) + k
     \<and> k \<le> length three_pages
     \<and> (250 \<le> fetched three_pages k \<or> (0 < k \<and> snd (three_pages ! (k - 1)) = None))
     \<and> (\<forall>j<k. fetched three_pages j < 250 \<and> (0 < j \<longrightarrow> snd (three_pages ! (j - 1)) \<noteq> None))"
  by (rule capped_pagination_stops_at_cap_or_missing_cursor
        [where self = client0 and s = Session and rest = silent and rs = three_replies
           and hs = "[(''Client-ID'', Plain ''id''), (''Authorization'', Bearer (PyStr ''tok''))]"])
     (simp_all add: client0_def world0_def three_replies_def three_pages_def)

text \<open>
  C6, as the claim states it, fails: without a cap and with a cursor on the first page,
  the loop does not end after that page. Here it sends a second request, with the cursor,
  and returns the clips of both pages.
\<close>

theorem unset_cap_follows_cursor:
  "paginated_request ''clips'' [(''broadcaster_id'', PyStr ''123'')] 100 None client0
     (world0 [Inr (clips_page 1 (Some ''A'')), Inr (clips_page 1 None)] [])
   = Some (Inr [clip, clip],
           [(''broadcaster_id'', PyStr ''123''), (''first'', PyInt 99), (''after'', PyStr ''A'')],
           client0\<lparr>ratelimit_reset_timestamp := PyNone, ratelimit_remaining := PyNone,
                   refresh_access_token_attr := Some (PyBool False)\<rparr>,
           \<lparr>get_replies = silent, post_replies = silent, now = 0,
            trace = [HttpGet ''https://api.twitch.tv/helix/clips''
                       [(''broadcaster_id'', PyStr ''123''), (''first'', PyInt 100)]
                       [(''Client-ID'', Plain ''id''), (''Authorization'', Bearer (PyStr ''tok''))],
                     HttpGet ''https://api.twitch.tv/helix/clips''
                       [(''broadcaster_id'', PyStr ''123''), (''first'', PyInt 99),
                        (''after'', PyStr ''A'')]
                       [(''Client-ID'', Plain ''id''), (''Authorization'', Bearer (PyStr ''tok''))]]\<rparr>)"
  unfolding paginated_request_def
  apply (subst paginate.simps)
  apply (simp add: get_request.simps run_defs clips_page_def cursor_of_def Let_def)
  apply (subst paginate.simps)
  apply (simp add: get_request.simps run_defs clips_page_def cursor_of_def Let_def)
  done

text \<open>
  C6, amended. When \<^verbatim>\<open>cap_records\<close> is \<^verbatim>\<open>None\<close>, the first request carries the page
  size \<^verbatim>\<open>max_records_per_page\<close>, and the loop goes on as long as the responses carry
  a cursor: against pages of which only the last has no cursor it sends one request per
  page and returns the records of all of them.
\<close>

theorem uncapped_pagination_follows_every_cursor:
  assumes "http self = Some s" and "headers self = Some hs"
    and "get_replies w = map Inr rs @- rest"
    and "map page_of rs = map Some pages"
    and "pages \<noteq> []" and "snd (last pages) = None"
    and "\<forall>i. i < length pages - 1 \<longrightarrow> snd (pages ! i) \<noteq> None"
  shows "\<exists>ps' self' w'.
           paginated_request endpoint ps maxp None self w =
             Some (Inr (concat (map fst pages)), ps', self', w')
           \<and> num_gets (trace w') = num_gets (trace w) + length pages
           \<and> trace w' ! length (trace w) =
               HttpGet (BASE_URL @ endpoint) (AList.update ''first'' (PyInt maxp) ps) hs"
proof -
  have k: "pages_run None maxp pages = length pages"
    using assms(5,6,7) by (rule pages_run_all)
  let ?reqs = "requests_run (BASE_URL @ endpoint) hs maxp None maxp ps pages"
  let ?w' = "w\<lparr>get_replies := drop (length pages) (map Inr rs) @- rest,
                trace := trace w @ ?reqs\<rparr>"
  from paginate_pages [OF assms(4,5,6,1,2,3), of endpoint maxp None ps maxp "[]"]
  obtain self' where
    run: "paginated_request endpoint ps maxp None self w =
            Some (Inr (concat (map fst pages)), params_run maxp None maxp ps pages, self', ?w')"
    by (auto simp: paginated_request_def k)
  have pos: "0 < pages_run None maxp pages"
    using assms(5) by (simp add: k)
  have "num_gets ?reqs = length pages"
    by (simp add: num_gets_requests_run k)
  then have count: "num_gets (trace ?w') = num_gets (trace w) + length pages"
    by (simp add: num_gets_append)
  have "?reqs \<noteq> []"
    using \<open>num_gets ?reqs = length pages\<close> assms(5) by (auto simp: num_gets_def)
  then have "(trace w @ ?reqs) ! length (trace w) = hd ?reqs"
    by (simp add: nth_append hd_conv_nth)
  also have "\<dots> = HttpGet (BASE_URL @ endpoint) (AList.update ''first'' (PyInt maxp) ps) hs"
    using requests_run_first [OF pos, of "BASE_URL @ endpoint" hs maxp ps] by simp
  finally have first: "trace ?w' ! length (trace w) =
      HttpGet (BASE_URL @ endpoint) (AList.update ''first'' (PyInt maxp) ps) hs"
    by simp
  from run count first show ?thesis
    by blast
qed

text \<open>C6, the amended statement at two pages of one clip.\<close>

theorem uncapped_pagination_follows_every_cursor_witness:
  "\<exists>ps' self' w'.
     paginated_request ''clips'' [(''broadcaster_id'', PyStr ''123'')] 100 None client0
       (world0 (map Inr two_replies) []) =
       Some (Inr (concat (map fst two_pages)), ps', self', w')
     \<and> num_gets (trace w') = num_gets (trace (world0 (map Inr two_replies) [])) + length two_pages
     \<and> trace w' ! length (trace (world0 (map Inr two_replies) [])) =
         HttpGet (BASE_URL @ ''clips'')
           (AList.update ''first'' (PyInt 100) [(''broadcaster_id'', PyStr ''123'')])
           [(''Client-ID'', Plain ''id''), (''Authorization'', Bearer (PyStr ''tok''))]"
  by (rule uncapped_pagination_follows_every_cursor
        [where self = client0 and s = Session and rest = silent and rs = two_replies])
     (simp_all add: client0_def world0_def two_replies_def two_pages_def)

text \<open>
  C7. Every public query method called with invalid parameters raises \<^verbatim>\<open>ValueError\<close>
  (the module's validation error) before any request: more than 100 identifiers
  (\<^verbatim>\<open>get_clips\<close>, \<^verbatim>\<open>get_videos\<close>, \<^verbatim>\<open>get_games\<close>, \<^verbatim>\<open>get_users\<close>), not exactly one
  of the mutually exclusive selectors (\<^verbatim>\<open>get_clips\<close>, \<^verbatim>\<open>get_videos\<close>), or no
  selector at all (\<^verbatim>\<open>get_games\<close>, \<^verbatim>\<open>get_users\<close>, \<^verbatim>\<open>get_users_follows\<close>). The client
  and the world, with its trace of requests, are returned as they were.
\<close>

theorem invalid_parameters_raise_before_any_request:
  "(100 < len_or_0 clip_id \<or>
    count_given [clip_id \<noteq> None, broadcaster_id \<noteq> None, game_id \<noteq> None] \<noteq> 1
      \<longrightarrow> (\<exists>msg. get_clips isoformat broadcaster_id game_id clip_id started_at ended_at cap self w
                   = Some (Inl (ValueError msg), self, w)))
   \<and> (100 < len_or_0 video_ids \<or>
      count_given [video_ids \<noteq> None, user_id \<noteq> None, vgame_id \<noteq> None] \<noteq> 1
      \<longrightarrow> (\<exists>msg. get_videos video_ids user_id vgame_id language period sort_arg video_type vcap self w
                   = Some (Inl (ValueError msg), self, w)))
   \<and> ((game_ids = None \<and> names = None \<and> igdb_ids = None) \<or>
      100 < len_or_0 game_ids + len_or_0 names + len_or_0 igdb_ids
      \<longrightarrow> (\<exists>msg. get_games game_ids names igdb_ids self w = (Inl (ValueError msg), self, w)))
   \<and> ((user_ids = None \<and> logins = None) \<or> 100 < len_or_0 user_ids + len_or_0 logins
      \<longrightarrow> (\<exists>msg. get_users user_ids logins self w = (Inl (ValueError msg), self, w)))
   \<and> (from_id = None \<and> to_id = None
      \<longrightarrow> (\<exists>msg. get_users_follows from_id to_id fcap self w
                   = Some (Inl (ValueError msg), self, w)))"
  by (intro conjI impI;
      erule get_clips_invalid get_videos_invalid get_games_invalid get_users_invalid
        get_users_follows_invalid)

text \<open>
  C7 at five invalid calls: two selectors for clips, none for videos, 101 names of
  games, no users, no ends of a follow.
\<close>

theorem invalid_parameters_raise_before_any_request_witness:
  "(\<exists>msg. get_clips (id :: string \<Rightarrow> string) (Some ''123'') (Some ''456'') None None None None
            client0 (world0 [] [])
          = Some (Inl (ValueError msg), client0, world0 [] []))
   \<and> (\<exists>msg. get_videos None None None None None None None None client0 (world0 [] [])
          = Some (Inl (ValueError msg), client0, world0 [] []))
   \<and> (\<exists>msg. get_games None (Some (replicate 101 ''x'')) None client0 (world0 [] [])
          = (Inl (ValueError msg), client0, world0 [] []))
   \<and> (\<exists>msg. get_users None None client0 (world0 [] [])
          = (Inl (ValueError msg), client0, world0 [] []))
   \<and> (\<exists>msg. get_users_follows None None (Some 1) client0 (world0 [] [])
          = Some (Inl (ValueError msg), client0, world0 [] []))"
  using invalid_parameters_raise_before_any_request
    [of None "Some ''123''" "Some ''456''" id None None None client0 "world0 [] []"
        None None None None None None None None
        None "Some (replicate 101 ''x'')" None None None None None "Some 1"]
  by (simp add: count_given_def len_or_0_def)

text \<open>
  C8, as the claim states it, fails: the refresh callback of this client raises, and the
  refresh ends with the callback's exception. The new token is installed by then, the
  flag \<^verbatim>\<open>_access_token_refreshed\<close> is not set.
\<close>

theorem callback_exception_aborts_refresh:
  "refresh_access_token (client0\<lparr>access_token_refresh_callback := Some failing_callback\<rparr>)
     (world0 [] [Inr (reply 200 [] (Some (PyDict [(''access_token'', PyStr ''new'')])))])
   = (Inl (CallbackError ''callback failed''),
      client0\<lparr>access_token_refresh_callback := Some failing_callback,
              access_token := Some (PyStr ''new''),
              headers := Some [(''Client-ID'', Plain ''id''),
                               (''Authorization'', Bearer (PyStr ''new''))]\<rparr>,
      \<lparr>get_replies = silent, post_replies = silent, now = 0,
       trace = [HttpPost ''https://id.twitch.tv/oauth2/token''
                  [(''client_id'', ''id''), (''client_secret'', ''secret''),
                   (''grant_type'', ''client_credentials'')],
                CallbackCall (PyStr ''new'')]\<rparr>)"
  by (simp add: run_defs failing_callback_def)

text \<open>
  C8, amended. For every credential refresh with a registered callback whose exchange
  returns a body with an \<^verbatim>\<open>access_token\<close>: the new credential is installed in the
  client and its \<^verbatim>\<open>Authorization\<close> header, then the callback is invoked with it. If the
  callback returns, the refresh completes and sets the flag; if the callback raises,
  its exception leaves the refresh, with the credential installed and the flag as it
  was.
\<close>

theorem refresh_with_callback:
  assumes "http self = Some s" and "headers self = Some hs"
    and "access_token_refresh_callback self = Some callback"
    and "shd (post_replies w) = Inr r" and "json r = Some body"
    and "subscript body ''access_token'' = Inr token"
  shows "refresh_access_token self w =
           ((case callback token of None \<Rightarrow> Inr () | Some e \<Rightarrow> Inl e),
            self\<lparr>access_token := Some token,
                 headers := Some (AList.update ''Authorization'' (Bearer token) hs),
                 access_token_refreshed :=
                   (case callback token of None \<Rightarrow> True | Some e \<Rightarrow> access_token_refreshed self)\<rparr>,
            w\<lparr>post_replies := stl (post_replies w),
              trace := trace w @
                [HttpPost TOKEN_URL [(''client_id'', client_id self),
                                     (''client_secret'', client_secret self),
                                     (''grant_type'', ''client_credentials'')],
                 CallbackCall token]\<rparr>)"
  using assms
  by (simp add: refresh_access_token_def http_post_def Let_def split: option.splits)

text \<open>C8, the amended statement at a client whose callback returns.\<close>

theorem refresh_with_callback_witness:
  "refresh_access_token (client0\<lparr>access_token_refresh_callback := Some quiet_callback\<rparr>)
     (world0 [] [Inr (reply 200 [] (Some (PyDict [(''access_token'', PyStr ''new'')])))])
   = (Inr (),
      client0\<lparr>access_token_refresh_callback := Some quiet_callback,
              access_token_refreshed := True,
              access_token := Some (PyStr ''new''),
              headers := Some [(''Client-ID'', Plain ''id''),
                               (''Authorization'', Bearer (PyStr ''new''))]\<rparr>,
      \<lparr>get_replies = silent, post_replies = silent, now = 0,
       trace = [HttpPost ''https://id.twitch.tv/oauth2/token''
                  [(''client_id'', ''id''), (''client_secret'', ''secret''),
                   (''grant_type'', ''client_credentials'')],
                CallbackCall (PyStr ''new'')]\<rparr>)"
  using refresh_with_callback
    [of "client0\<lparr>access_token_refresh_callback := Some quiet_callback\<rparr>" Session
        "[(''Client-ID'', Plain ''id''), (''Authorization'', Bearer (PyStr ''tok''))]"
        quiet_callback
        "world0 [] [Inr (reply 200 [] (Some (PyDict [(''access_token'', PyStr ''new'')])))]"
        "reply 200 [] (Some (PyDict [(''access_token'', PyStr ''new'')]))"
        "PyDict [(''access_token'', PyStr ''new'')]" "PyStr ''new''"]
  by (simp add: client0_def world0_def reply_def quiet_callback_def TOKEN_URL_def)




text \<open>
  C10, as the claim states it, fails: with a cap of 0 the loop body never runs, no request
  is sent, and the caller's \<^verbatim>\<open>params\<close> comes back as it was, without a \<^verbatim>\<open>first\<close> key.
\<close>

theorem zero_cap_leaves_params_unchanged:
  "paginated_request ''clips'' [(''broadcaster_id'', PyStr ''123'')] 100 (Some 0) client0
     (world0 [Inr (clips_page 1 None)] [])
   = Some (Inr [], [(''broadcaster_id'', PyStr ''123'')], client0,
           world0 [Inr (clips_page 1 None)] [])"
  unfolding paginated_request_def
  by (subst paginate.simps) simp

text \<open>
  C10, amended. For every call of \<^verbatim>\<open>_paginated_request\<close>:

  \<^item> with a cap of 0 or less the call returns the empty list, no request is sent, and the
    caller's \<^verbatim>\<open>params\<close>, the client and the world are left unchanged;

  \<^item> with a cap that is unset or positive, whenever the call returns a list, whatever
    the server answered (a 401 followed by a refresh and a retry included): it has sent at
    least one request, the last event is a GET, and the caller's \<^verbatim>\<open>params\<close> holds under
    \<^verbatim>\<open>first\<close> the page size of that last request, and under \<^verbatim>\<open>after\<close> the last cursor
    among the pages the call consumed whenever one of them carried a cursor, and what the
    caller had put there otherwise;

  \<^item> and the call does return a list against every server whose next answers are
    successful pages, the last of them without a cursor.
\<close>

theorem params_mutated_after_requests:
  "(\<forall>c. cap = Some c \<and> c \<le> 0 \<longrightarrow>
      paginated_request endpoint ps maxp cap self w = Some (Inr [], ps, self, w))
   \<and> (\<forall>res ps' self' w'.
        (case cap of None \<Rightarrow> True | Some c \<Rightarrow> 0 < c)
        \<and> paginated_request endpoint ps maxp cap self w = Some (Inr res, ps', self', w') \<longrightarrow>
        (\<exists>evs P hs n. trace w' = trace w @ evs \<and> evs \<noteq> []
           \<and> last evs = HttpGet (BASE_URL @ endpoint) P hs
           \<and> map_of P ''first'' = Some (PyInt n) \<and> map_of ps' ''first'' = Some (PyInt n)
           \<and> get_replies w' = sdrop (num_gets evs) (get_replies w)
           \<and> (\<forall>c. last_cursor (pages_seen (stake (num_gets evs) (get_replies w))) = Some c
                  \<longrightarrow> map_of ps' ''after'' = Some c)
           \<and> (last_cursor (pages_seen (stake (num_gets evs) (get_replies w))) = None
                  \<longrightarrow> map_of ps' ''after'' = map_of ps ''after'')))
   \<and> (\<forall>s hs rs rest pages.
        http self = Some s \<and> headers self = Some hs
        \<and> get_replies w = map Inr rs @- rest \<and> map page_of rs = map Some pages
        \<and> pages \<noteq> [] \<and> snd (last pages) = None \<longrightarrow>
        (\<exists>res ps' self' w'.
           paginated_request endpoint ps maxp cap self w = Some (Inr res, ps', self', w')))"
proof (intro conjI allI impI)
  fix c
  assume "cap = Some c \<and> c \<le> 0"
  then show "paginated_request endpoint ps maxp cap self w = Some (Inr [], ps, self, w)"
    by (simp add: nonpositive_cap_sends_nothing)
next
  fix res ps' self' w'
  assume "(case cap of None \<Rightarrow> True | Some c \<Rightarrow> 0 < c)
          \<and> paginated_request endpoint ps maxp cap self w = Some (Inr res, ps', self', w')"
  then have run: "paginated_request endpoint ps maxp cap self w = Some (Inr res, ps', self', w')"
    and pos: "case cap of None \<Rightarrow> True | Some c \<Rightarrow> 0 < c"
    by simp_all
  from paginated_request_returns [OF run pos] obtain evs P hs n where
    *: "trace w' = trace w @ evs" "evs \<noteq> []" "last evs = HttpGet (BASE_URL @ endpoint) P hs"
      "map_of P ''first'' = Some (PyInt n)" "map_of ps' ''first'' = Some (PyInt n)"
      "get_replies w' = sdrop (num_gets evs) (get_replies w)"
    and after: "map_of ps' ''after'' =
               (case last_cursor (pages_seen (stake (num_gets evs) (get_replies w))) of
                  Some c \<Rightarrow> Some c | None \<Rightarrow> map_of ps ''after'')"
    by blast
  have aft1: "\<forall>c. last_cursor (pages_seen (stake (num_gets evs) (get_replies w))) = Some c
                  \<longrightarrow> map_of ps' ''after'' = Some c"
    and aft2: "last_cursor (pages_seen (stake (num_gets evs) (get_replies w))) = None
                  \<longrightarrow> map_of ps' ''after'' = map_of ps ''after''"
    by (simp_all add: after)
  show "\<exists>evs P hs n. trace w' = trace w @ evs \<and> evs \<noteq> []
           \<and> last evs = HttpGet (BASE_URL @ endpoint) P hs
           \<and> map_of P ''first'' = Some (PyInt n) \<and> map_of ps' ''first'' = Some (PyInt n)
           \<and> get_replies w' = sdrop (num_gets evs) (get_replies w)
           \<and> (\<forall>c. last_cursor (pages_seen (stake (num_gets evs) (get_replies w))) = Some c
                  \<longrightarrow> map_of ps' ''after'' = Some c)
           \<and> (last_cursor (pages_seen (stake (num_gets evs) (get_replies w))) = None
                  \<longrightarrow> map_of ps' ''after'' = map_of ps ''after'')"
    by (rule exI [of _ evs], rule exI [of _ P], rule exI [of _ hs], rule exI [of _ n])
       (intro conjI * aft1 aft2)
next
  fix s hs rs rest pages
  assume "http self = Some s \<and> headers self = Some hs
        \<and> get_replies w = map Inr rs @- rest \<and> map page_of rs = map Some pages
        \<and> pages \<noteq> [] \<and> snd (last pages) = None"
  then show "\<exists>res ps' self' w'.
           paginated_request endpoint ps maxp cap self w = Some (Inr res, ps', self', w')"
    by (elim conjE) (rule paginated_request_pages_return)
qed

text \<open>
  C10, the amended statement at a cap of -3, at a request for five clips whose first GET
  is rejected with a 401, and at a request for five clips against two pages.
\<close>

theorem params_mutated_after_requests_witness:
  "paginated_request ''clips'' [(''broadcaster_id'', PyStr ''123'')] 100 (Some (- 3)) client0
     retry_world
     = Some (Inr [], [(''broadcaster_id'', PyStr ''123'')], client0, retry_world)
   \<and> paginated_request ''clips'' [(''broadcaster_id'', PyStr ''123'')] 100 (Some 5) client0
       retry_world
       = Some (Inr [clip, clip],
               [(''broadcaster_id'', PyStr ''123''), (''first'', PyInt 4), (''after'', PyStr ''A'')],
               retried_client, retried_world)
   \<and> (\<exists>evs P hs n. trace retried_world = trace retry_world @ evs \<and> evs \<noteq> []
         \<and> last evs = HttpGet (BASE_URL @ ''clips'') P hs
         \<and> map_of P ''first'' = Some (PyInt n)
         \<and> map_of [(''broadcaster_id'', PyStr ''123''), (''first'', PyInt 4),
                    (''after'', PyStr ''A'')] ''first'' = Some (PyInt n)
         \<and> get_replies retried_world = sdrop (num_gets evs) (get_replies retry_world)
         \<and> (\<forall>c. last_cursor (pages_seen (stake (num_gets evs) (get_replies retry_world))) = Some c
                \<longrightarrow> map_of [(''broadcaster_id'', PyStr ''123''), (''first'', PyInt 4),
                             (''after'', PyStr ''A'')] ''after'' = Some c)
         \<and> (last_cursor (pages_seen (stake (num_gets evs) (get_replies retry_world))) = None
                \<longrightarrow> map_of [(''broadcaster_id'', PyStr ''123''), (''first'', PyInt 4),
                             (''after'', PyStr ''A'')] ''after''
                    = map_of [(''broadcaster_id'', PyStr ''123'')] ''after''))
   \<and> (\<exists>res ps' self' w'.
         paginated_request ''clips'' [(''broadcaster_id'', PyStr ''123'')] 100 (Some 5) client0
           (world0 (map Inr two_replies) []) = Some (Inr res, ps', self', w'))"
proof (intro conjI)
  let ?ps = "[(''broadcaster_id'', PyStr ''123'')]"
  let ?ps' = "[(''broadcaster_id'', PyStr ''123''), (''first'', PyInt 4), (''after'', PyStr ''A'')]"
  have neg: "Some (- 3) = Some (- 3 :: int) \<and> (- 3 :: int) \<le> 0"
    by simp
  from params_mutated_after_requests
         [where cap = "Some (- 3)" and endpoint = "''clips''" and ps = ?ps and maxp = 100
            and self = client0 and w = retry_world,
          THEN conjunct1, rule_format, OF neg]
  show "paginated_request ''clips'' ?ps 100 (Some (- 3)) client0 retry_world
          = Some (Inr [], ?ps, client0, retry_world)" .
  show run: "paginated_request ''clips'' ?ps 100 (Some 5) client0 retry_world
          = Some (Inr [clip, clip], ?ps', retried_client, retried_world)"
    by (rule retry_run)
  have pos: "(case Some (5 :: int) of None \<Rightarrow> True | Some c \<Rightarrow> 0 < c)
             \<and> paginated_request ''clips'' ?ps 100 (Some 5) client0 retry_world
                 = Some (Inr [clip, clip], ?ps', retried_client, retried_world)"
    using run by simp
  from params_mutated_after_requests
         [where cap = "Some 5" and endpoint = "''clips''" and ps = ?ps and maxp = 100
            and self = client0 and w = retry_world,
          THEN conjunct2, THEN conjunct1, rule_format, OF pos]
  show "\<exists>evs P hs n. trace retried_world = trace retry_world @ evs \<and> evs \<noteq> []
         \<and> last evs = HttpGet (BASE_URL @ ''clips'') P hs
         \<and> map_of P ''first'' = Some (PyInt n)
         \<and> map_of ?ps' ''first'' = Some (PyInt n)
         \<and> get_replies retried_world = sdrop (num_gets evs) (get_replies retry_world)
         \<and> (\<forall>c. last_cursor (pages_seen (stake (num_gets evs) (get_replies retry_world))) = Some c
                \<longrightarrow> map_of ?ps' ''after'' = Some c)
         \<and> (last_cursor (pages_seen (stake (num_gets evs) (get_replies retry_world))) = None
                \<longrightarrow> map_of ?ps' ''after'' = map_of ?ps ''after'')" .
  have pages: "http client0 = Some Session
      \<and> headers client0 = Some [(''Client-ID'', Plain ''id''), (''Authorization'', Bearer (PyStr ''tok''))]
      \<and> get_replies (world0 (map Inr two_replies) []) = map Inr two_replies @- silent
      \<and> map page_of two_replies = map Some two_pages
      \<and> two_pages \<noteq> [] \<and> snd (last two_pages) = None"
    by (simp add: client0_def world0_def two_replies_def two_pages_def)
  from params_mutated_after_requests
         [where cap = "Some 5" and endpoint = "''clips''" and ps = ?ps and maxp = 100
            and self = client0 and w = "world0 (map Inr two_replies) []",
          THEN conjunct2, THEN conjunct2, rule_format, OF pages]
  show "\<exists>res ps' self' w'.
         paginated_request ''clips'' ?ps 100 (Some 5) client0
           (world0 (map Inr two_replies) []) = Some (Inr res, ps', self', w')" .
qed

end
